theory Spec2Isabelle
  imports Main
begin

section \<open>Python values and exceptions\<close>

text \<open>
  The three Lambda handlers of the repository work on JSON-like Python values: the
  invocation event, the responses of the AWS SDK and the items of the DynamoDB job
  table are dictionaries with string keys. A dictionary is an association list in the
  order of the source's dict literal; lookup is \<open>map_of\<close>.
\<close>

datatype pyval =
    PNone
  | PBool bool
  | PInt int
  | PStr string
  | PList "pyval list"
  | PDict "(string \<times> pyval) list"

type_synonym pydict = "(string \<times> pyval) list"

text \<open>
  An exception value carries the text that \<open>str(e)\<close> yields, which is what the handlers
  put into their 500 responses. \<open>ServiceError\<close> stands for any error raised by an AWS
  client call (botocore's ClientError and its relatives).
\<close>

datatype exn =
    KeyError string
  | IndexError string
  | TypeError string
  | AttributeError string
  | UnicodeDecodeError string
  | ServiceError string

fun str_exn :: "exn \<Rightarrow> string" where
  "str_exn (KeyError m) = m"
| "str_exn (IndexError m) = m"
| "str_exn (TypeError m) = m"
| "str_exn (AttributeError m) = m"
| "str_exn (UnicodeDecodeError m) = m"
| "str_exn (ServiceError m) = m"

text \<open>Sequencing of steps that may raise: the first exception ends the block.\<close>

fun and_then :: "exn + 'a \<Rightarrow> ('a \<Rightarrow> exn + 'b) \<Rightarrow> exn + 'b" where
  "and_then (Inl e) f = Inl e"
| "and_then (Inr v) f = f v"

text \<open>\<open>try: body except Exception as e: handler\<close>.\<close>

fun try_except :: "exn + 'a \<Rightarrow> (exn \<Rightarrow> exn + 'a) \<Rightarrow> exn + 'a" where
  "try_except (Inl e) h = h e"
| "try_except (Inr v) h = Inr v"

text \<open>\<open>repr\<close> of a string key, as \<open>str(KeyError(k))\<close> prints it (keys here are identifiers).\<close>

definition repr_key :: "string \<Rightarrow> string" where
  "repr_key k = [CHR 0x27] @ k @ [CHR 0x27]"

fun type_name :: "pyval \<Rightarrow> string" where
  "type_name PNone = ''NoneType''"
| "type_name (PBool b) = ''bool''"
| "type_name (PInt i) = ''int''"
| "type_name (PStr s) = ''str''"
| "type_name (PList xs) = ''list''"
| "type_name (PDict kvs) = ''dict''"

text \<open>\<open>obj[k]\<close> for a string key \<open>k\<close>.\<close>

fun getitem :: "pyval \<Rightarrow> string \<Rightarrow> exn + pyval" where
  "getitem (PDict kvs) k =
     (case map_of kvs k of Some v \<Rightarrow> Inr v | None \<Rightarrow> Inl (KeyError (repr_key k)))"
| "getitem (PStr s) k = Inl (TypeError (''string indices must be integers, not '' @ repr_key ''str''))"
| "getitem (PList xs) k = Inl (TypeError ''list indices must be integers or slices, not str'')"
| "getitem v k = Inl (TypeError (repr_key (type_name v) @ '' object is not subscriptable''))"

text \<open>\<open>obj[0]\<close>: the first element of a list or string; a JSON dictionary has no key \<open>0\<close>.\<close>

fun getfirst :: "pyval \<Rightarrow> exn + pyval" where
  "getfirst (PList xs) =
     (case xs of [] \<Rightarrow> Inl (IndexError ''list index out of range'') | x # _ \<Rightarrow> Inr x)"
| "getfirst (PStr s) =
     (case s of [] \<Rightarrow> Inl (IndexError ''string index out of range'') | c # _ \<Rightarrow> Inr (PStr [c]))"
| "getfirst (PDict kvs) = Inl (KeyError ''0'')"
| "getfirst v = Inl (TypeError (repr_key (type_name v) @ '' object is not subscriptable''))"

text \<open>Truth value of an object, as \<open>if x\<close>, \<open>not x\<close> and \<open>x and y\<close> test it.\<close>

fun truthy :: "pyval \<Rightarrow> bool" where
  "truthy PNone = False"
| "truthy (PBool b) = b"
| "truthy (PInt i) = (i \<noteq> 0)"
| "truthy (PStr s) = (s \<noteq> [])"
| "truthy (PList xs) = (xs \<noteq> [])"
| "truthy (PDict kvs) = (kvs \<noteq> [])"

text \<open>\<open>str(n)\<close> for an integer: decimal digits, a minus sign for a negative number.\<close>

definition digit_char :: "nat \<Rightarrow> char" where
  "digit_char d = ''0123456789'' ! d"

fun str_nat :: "nat \<Rightarrow> string" where
  "str_nat n = (if n < 10 then [digit_char n] else str_nat (n div 10) @ [digit_char (n mod 10)])"

declare str_nat.simps [simp del]

definition str_int :: "int \<Rightarrow> string" where
  "str_int i = (if i < 0 then CHR ''-'' # str_nat (nat (- i)) else str_nat (nat i))"

text \<open>\<open>s.endswith(suffix)\<close> and \<open>s.replace(old, new)\<close> (for a non-empty \<open>old\<close>).\<close>

definition endswith :: "string \<Rightarrow> string \<Rightarrow> bool" where
  "endswith s suffix = (length suffix \<le> length s \<and> drop (length s - length suffix) s = suffix)"

fun replace_from :: "string \<Rightarrow> string \<Rightarrow> nat \<Rightarrow> string \<Rightarrow> string" where
  "replace_from old new skip [] = []"
| "replace_from old new (Suc skip) (c # cs) = replace_from old new skip cs"
| "replace_from old new 0 (c # cs) =
     (if old \<noteq> [] \<and> take (length old) (c # cs) = old
      then new @ replace_from old new (length old - 1) cs
      else c # replace_from old new 0 cs)"

definition str_replace :: "string \<Rightarrow> string \<Rightarrow> string \<Rightarrow> string" where
  "str_replace s old new = replace_from old new 0 s"

section \<open>The execution environment\<close>

text \<open>
  The handlers reach the outside world through the AWS SDK, the process environment, the
  clock and (in the real-time path) pandas. None of that code is in the repository; each
  call is a field of the record \<open>aws\<close> that says what the call returns or raises.
  A text read from storage is a \<open>string\<close> whose characters are the code points
  U+0000 to U+00FF of the decoded Python string.

  Left out of the model: the logger calls (they change nothing the handlers return or
  store) and the construction of the SDK clients, which is taken to succeed. The
  invocation event is a JSON object.
\<close>

record job_request =
  jobName :: string
  roleArn :: string
  modelId :: string
  s3InputUri :: string
  s3OutputUri :: string
  timeoutDurationInHours :: int

type_synonym dataframe = "pydict list"

record aws =
  environ :: "(string \<times> string) list"
  datetime_now :: "nat \<Rightarrow> int \<times> string"
  str_other :: "pyval \<Rightarrow> string"
  create_model_invocation_job :: "job_request \<Rightarrow> exn + pydict"
  get_model_invocation_job :: "pyval \<Rightarrow> exn + pydict"
  bedrock_converse :: "pyval \<Rightarrow> exn + pyval"
  get_object :: "pyval \<Rightarrow> pyval \<Rightarrow> exn + string"
  put_object_error :: "pyval \<Rightarrow> string \<Rightarrow> string \<Rightarrow> exn option"
  put_item_error :: "pydict \<Rightarrow> exn option"
  scan_error :: "exn option"
  update_item_error :: "pyval \<Rightarrow> pydict \<Rightarrow> exn option"
  read_csv :: "string \<Rightarrow> exn + dataframe"
  to_csv :: "dataframe \<Rightarrow> string"
  json_dumps :: "pydict \<Rightarrow> string"

text \<open>
  \<^item> \<open>datetime_now w n\<close> is the \<open>n\<close>-th reading of \<open>datetime.now()\<close> in an invocation, as
    the pair of \<open>int(now.timestamp())\<close> and \<open>now.isoformat()\<close>.
  \<^item> \<open>str_other w v\<close> is the text an f-string prints for a value \<open>v\<close> that is not a string.
  \<^item> \<open>get_object w bucket key\<close> is the decoded body of the object, or the error of the
    read or of the decoding.
  \<^item> \<open>put_object_error\<close>, \<open>put_item_error\<close>, \<open>scan_error\<close> and \<open>update_item_error\<close> say
    whether the call raises; when it does not, its effect is written into the state below.
  \<^item> \<open>read_csv\<close> and \<open>to_csv\<close> are pandas' parser and printer; a data frame is the list of
    its rows, a row maps column names to cells, and the missing cell (NaN) is \<open>PNone\<close>.
\<close>

record cloud =
  batch_jobs :: "job_request list"
  status_queries :: "pyval list"
  converse_calls :: "pyval list"
  objects_put :: "(pyval \<times> string \<times> string) list"
  job_table :: "(string \<times> pydict) list"

text \<open>
  The state the handlers change: the batch jobs created at the backend, the status queries
  and converse calls sent to it, the objects written, and the job table. The table maps
  the key attribute \<open>jobId\<close> to the item's other attributes.
\<close>

fun table_put :: "string \<Rightarrow> pydict \<Rightarrow> (string \<times> pydict) list \<Rightarrow> (string \<times> pydict) list" where
  "table_put k v [] = [(k, v)]"
| "table_put k v ((k', v') # rest) =
     (if k = k' then (k, v) # rest else (k', v') # table_put k v rest)"

definition environ_get :: "aws \<Rightarrow> string \<Rightarrow> exn + string" where
  "environ_get w name =
     (case map_of (environ w) name of Some v \<Rightarrow> Inr v | None \<Rightarrow> Inl (KeyError (repr_key name)))"

definition fstr :: "aws \<Rightarrow> pyval \<Rightarrow> string" where
  "fstr w v = (case v of PStr s \<Rightarrow> s | _ \<Rightarrow> str_other w v)"

text \<open>\<open>d.get(k, default)\<close>\<close>

definition dict_get :: "pydict \<Rightarrow> string \<Rightarrow> pyval \<Rightarrow> pyval" where
  "dict_get d k dflt = (case map_of d k of Some v \<Rightarrow> v | None \<Rightarrow> dflt)"

text \<open>A response with status 500 and the text of the exception.\<close>

definition error_500 :: "string \<Rightarrow> pydict" where
  "error_500 msg = [(''statusCode'', PInt 500), (''error'', PStr msg)]"

section \<open>Batch path: the deterministic pattern strategy (processor.py, lines 123 to 138)\<close>

text \<open>
  The fallback applies four \<open>re.sub\<close> calls. Their patterns use only word boundaries
  and greedily quantified character classes, so a pattern is a list of such items, and
  the matcher is the backtracking matcher of Python's \<open>re\<close> on that fragment: a quantifier
  first takes as many characters as it can and gives them back one at a time.

  The patterns are \<open>str\<close> patterns, so \<open>\d\<close>, \<open>\s\<close> and \<open>\b\<close> follow Unicode; the three
  predicates below are Python's classification of the code points up to U+00FF.
\<close>

definition is_digit :: "char \<Rightarrow> bool" where
  "is_digit c = (48 \<le> (of_char c :: nat) \<and> (of_char c :: nat) \<le> 57)"

definition is_space :: "char \<Rightarrow> bool" where
  "is_space c = (let n = (of_char c :: nat) in
     (9 \<le> n \<and> n \<le> 13) \<or> (28 \<le> n \<and> n \<le> 32) \<or> n = 133 \<or> n = 160)"

definition is_word :: "char \<Rightarrow> bool" where
  "is_word c = (let n = (of_char c :: nat) in
     (48 \<le> n \<and> n \<le> 57) \<or> (65 \<le> n \<and> n \<le> 90) \<or> n = 95 \<or> (97 \<le> n \<and> n \<le> 122) \<or>
     n = 170 \<or> n = 178 \<or> n = 179 \<or> n = 181 \<or> n = 185 \<or> n = 186 \<or>
     (188 \<le> n \<and> n \<le> 190) \<or> (192 \<le> n \<and> n \<le> 214) \<or> (216 \<le> n \<and> n \<le> 246) \<or>
     (248 \<le> n \<and> n \<le> 255))"

text \<open>
  A member of a bracket expression, and a pattern item: \<open>\b\<close>, or a class with the
  quantifier \<open>{lo,hi}\<close> (\<open>None\<close> for no upper bound; \<open>?\<close> is \<open>{0,1}\<close>, \<open>+\<close> is \<open>{1,}\<close>, a plain
  class or literal is \<open>{1,1}\<close>).
\<close>

datatype cset = Chr char | Rng char char | Digit | Space

fun in_cset :: "char \<Rightarrow> cset \<Rightarrow> bool" where
  "in_cset c (Chr d) = (c = d)"
| "in_cset c (Rng lo hi) = ((of_char lo :: nat) \<le> of_char c \<and> (of_char c :: nat) \<le> of_char hi)"
| "in_cset c Digit = is_digit c"
| "in_cset c Space = is_space c"

definition in_class :: "char \<Rightarrow> cset list \<Rightarrow> bool" where
  "in_class c cls = list_ex (in_cset c) cls"

datatype item = WordB | Rep "cset list" nat "nat option"

text \<open>
  \<open>rx_match items prev s\<close> matches the items at the start of \<open>s\<close>, where \<open>prev\<close> is the
  character before \<open>s\<close> in the subject string (\<open>None\<close> at its start). It returns the text
  left after the match with the character before it, or \<open>None\<close> when nothing matches.
\<close>

fun wordo :: "char option \<Rightarrow> bool" where
  "wordo None = False"
| "wordo (Some c) = is_word c"

fun headw :: "string \<Rightarrow> bool" where
  "headw [] = False"
| "headw (c # cs) = is_word c"

fun more_allowed :: "nat option \<Rightarrow> bool" where
  "more_allowed None = True"
| "more_allowed (Some h) = (0 < h)"

fun rx_match :: "item list \<Rightarrow> char option \<Rightarrow> string \<Rightarrow> (char option \<times> string) option" where
  "rx_match [] prev s = Some (prev, s)"
| "rx_match (WordB # items) prev s =
     (if wordo prev \<noteq> headw s then rx_match items prev s else None)"
| "rx_match (Rep cls lo hi # items) prev [] =
     (if lo = 0 then rx_match items prev [] else None)"
| "rx_match (Rep cls lo hi # items) prev (c # cs) =
     (if more_allowed hi \<and> in_class c cls then
        (case rx_match (Rep cls (lo - 1) (map_option (\<lambda>h. h - 1) hi) # items) (Some c) cs of
           Some r \<Rightarrow> Some r
         | None \<Rightarrow> if lo = 0 then rx_match items prev (c # cs) else None)
      else if lo = 0 then rx_match items prev (c # cs) else None)"

text \<open>
  \<open>re.sub(pattern, repl, string)\<close> for a replacement without escapes: scan from the left,
  replace each match and go on after it. An empty match is replaced and the scan moves on
  by one character; the four patterns below never match the empty string.
\<close>

fun re_sub :: "item list \<Rightarrow> string \<Rightarrow> char option \<Rightarrow> string \<Rightarrow> string" where
  "re_sub pat repl prev [] = (case rx_match pat prev [] of None \<Rightarrow> [] | Some m \<Rightarrow> repl)"
| "re_sub pat repl prev (c # cs) =
     (case rx_match pat prev (c # cs) of
        None \<Rightarrow> c # re_sub pat repl (Some c) cs
      | Some (prev', rest) \<Rightarrow>
          if length rest < length (c # cs) then repl @ re_sub pat repl prev' rest
          else repl @ c # re_sub pat repl (Some c) cs)"

text \<open>
  \<^verbatim>\<open>\b[A-Za-z0-9._%+-]+@[A-Za-z0-9.-]+\.[A-Z|a-z]{2,}\b\<close>
\<close>

definition email_pattern :: "item list" where
  "email_pattern =
    [WordB,
     Rep [Rng CHR ''A'' CHR ''Z'', Rng CHR ''a'' CHR ''z'', Rng CHR ''0'' CHR ''9'',
          Chr CHR ''.'', Chr CHR ''_'', Chr CHR ''%'', Chr CHR ''+'', Chr CHR ''-''] 1 None,
     Rep [Chr CHR ''@''] 1 (Some 1),
     Rep [Rng CHR ''A'' CHR ''Z'', Rng CHR ''a'' CHR ''z'', Rng CHR ''0'' CHR ''9'',
          Chr CHR ''.'', Chr CHR ''-''] 1 None,
     Rep [Chr CHR ''.''] 1 (Some 1),
     Rep [Rng CHR ''A'' CHR ''Z'', Chr CHR ''|'', Rng CHR ''a'' CHR ''z''] 2 None,
     WordB]"

text \<open>
  \<^verbatim>\<open>\b\(?\d{3}\)?[-.\s]?\d{3}[-.\s]?\d{4}\b\<close>
\<close>

definition phone_pattern :: "item list" where
  "phone_pattern =
    [WordB,
     Rep [Chr CHR ''(''] 0 (Some 1),
     Rep [Digit] 3 (Some 3),
     Rep [Chr CHR '')''] 0 (Some 1),
     Rep [Chr CHR ''-'', Chr CHR ''.'', Space] 0 (Some 1),
     Rep [Digit] 3 (Some 3),
     Rep [Chr CHR ''-'', Chr CHR ''.'', Space] 0 (Some 1),
     Rep [Digit] 4 (Some 4),
     WordB]"

text \<open>
  \<^verbatim>\<open>\b\d{4}[-\s]?\d{4}[-\s]?\d{4}[-\s]?\d{4}\b\<close>
\<close>

definition credit_card_pattern :: "item list" where
  "credit_card_pattern =
    [WordB,
     Rep [Digit] 4 (Some 4),
     Rep [Chr CHR ''-'', Space] 0 (Some 1),
     Rep [Digit] 4 (Some 4),
     Rep [Chr CHR ''-'', Space] 0 (Some 1),
     Rep [Digit] 4 (Some 4),
     Rep [Chr CHR ''-'', Space] 0 (Some 1),
     Rep [Digit] 4 (Some 4),
     WordB]"

text \<open>
  \<^verbatim>\<open>\b\d{3}-\d{2}-\d{4}\b\<close>
\<close>

definition ssn_pattern :: "item list" where
  "ssn_pattern =
    [WordB,
     Rep [Digit] 3 (Some 3),
     Rep [Chr CHR ''-''] 1 (Some 1),
     Rep [Digit] 2 (Some 2),
     Rep [Chr CHR ''-''] 1 (Some 1),
     Rep [Digit] 4 (Some 4),
     WordB]"

text \<open>The four substitutions, in the order of the source.\<close>

definition redact :: "string \<Rightarrow> string" where
  "redact csv_content =
     (let processed_content = csv_content;
          processed_content = re_sub email_pattern ''<PII_EMAIL>'' None processed_content;
          processed_content = re_sub phone_pattern ''<PII_PHONE>'' None processed_content;
          processed_content = re_sub credit_card_pattern ''<PII_CREDIT_CARD>'' None processed_content;
          processed_content = re_sub ssn_pattern ''<PII_SSN>'' None processed_content
      in processed_content)"

section \<open>Batch path: the job submitter (processor.py)\<close>

record config =
  input_bucket :: string
  output_bucket :: string
  table_name :: string
  bedrock_role_arn :: string

definition read_environment :: "aws \<Rightarrow> exn + config" where
  "read_environment w =
     and_then (environ_get w ''INPUT_BUCKET'') (\<lambda>ib.
     and_then (environ_get w ''OUTPUT_BUCKET'') (\<lambda>ob.
     and_then (environ_get w ''DYNAMODB_TABLE'') (\<lambda>tn.
     and_then (environ_get w ''BEDROCK_ROLE_ARN'') (\<lambda>ra.
     Inr \<lparr>input_bucket = ib, output_bucket = ob, table_name = tn, bedrock_role_arn = ra\<rparr>))))"

text \<open>Lines 33 to 41: the bucket and key of an S3 notification, or of a manual invocation.\<close>

definition parse_event :: "pydict \<Rightarrow> string \<Rightarrow> exn + pyval \<times> pyval" where
  "parse_event event ib =
     (if (case map_of event ''Records'' of None \<Rightarrow> False | Some recs \<Rightarrow> truthy recs) then
        and_then (getitem (PDict event) ''Records'') (\<lambda>recs.
        and_then (getfirst recs) (\<lambda>rec0.
        and_then (getitem rec0 ''s3'') (\<lambda>s3.
        and_then (getitem s3 ''bucket'') (\<lambda>b.
        and_then (getitem b ''name'') (\<lambda>bucket.
        and_then (getitem rec0 ''s3'') (\<lambda>s3'.
        and_then (getitem s3' ''object'') (\<lambda>ob.
        and_then (getitem ob ''key'') (\<lambda>key.
        Inr (bucket, key)))))))))
      else Inr (dict_get event ''bucket'' (PStr ib),
                dict_get event ''key'' (PStr ''sample_pii_data.csv'')))"

definition job_id_of :: "aws \<Rightarrow> string" where
  "job_id_of w = ''pii-job-'' @ str_int (fst (datetime_now w 0))"

definition output_key_of :: "aws \<Rightarrow> pyval \<Rightarrow> string" where
  "output_key_of w key = ''processed-'' @ fstr w key"

definition output_uri_of :: "aws \<Rightarrow> config \<Rightarrow> pyval \<Rightarrow> string" where
  "output_uri_of w cfg key = ''s3://'' @ output_bucket cfg @ ''/'' @ output_key_of w key"

definition batch_request :: "aws \<Rightarrow> config \<Rightarrow> pyval \<Rightarrow> pyval \<Rightarrow> job_request" where
  "batch_request w cfg bucket key =
     \<lparr>jobName = job_id_of w,
      roleArn = bedrock_role_arn cfg,
      modelId = ''anthropic.claude-3-haiku-20240307-v1:0'',
      s3InputUri = ''s3://'' @ fstr w bucket @ ''/'' @ fstr w key,
      s3OutputUri = output_uri_of w cfg key,
      timeoutDurationInHours = 24\<rparr>"

text \<open>The item of lines 90 to 102; it takes the clock readings 1 and 2.\<close>

definition batch_item :: "aws \<Rightarrow> config \<Rightarrow> pyval \<Rightarrow> pyval \<Rightarrow> pyval \<Rightarrow> pydict" where
  "batch_item w cfg bucket key job_arn =
     [(''jobId'', PStr (job_id_of w)),
      (''jobArn'', job_arn),
      (''status'', PStr ''InProgress''),
      (''sourceFile'', key),
      (''inputBucket'', bucket),
      (''outputBucket'', PStr (output_bucket cfg)),
      (''outputKey'', PStr (output_key_of w key)),
      (''createdAt'', PStr (snd (datetime_now w 1))),
      (''ttl'', PInt (fst (datetime_now w 2) + 30 * 24 * 60 * 60))]"

text \<open>The item of lines 149 to 162; \<open>n\<close> is the number of clock readings taken before it.\<close>

definition direct_item :: "aws \<Rightarrow> config \<Rightarrow> pyval \<Rightarrow> pyval \<Rightarrow> nat \<Rightarrow> pydict" where
  "direct_item w cfg bucket key n =
     [(''jobId'', PStr (job_id_of w)),
      (''status'', PStr ''Completed''),
      (''sourceFile'', key),
      (''inputBucket'', bucket),
      (''outputBucket'', PStr (output_bucket cfg)),
      (''outputKey'', PStr (output_key_of w key)),
      (''createdAt'', PStr (snd (datetime_now w n))),
      (''completedAt'', PStr (snd (datetime_now w (n + 1)))),
      (''method'', PStr ''direct_processing''),
      (''ttl'', PInt (fst (datetime_now w (n + 2)) + 30 * 24 * 60 * 60))]"

text \<open>
  \<open>table.put_item(Item=item)\<close>: when the call does not raise, the item replaces whatever
  the table held under its \<open>jobId\<close>.
\<close>

definition ddb_put_item :: "aws \<Rightarrow> pydict \<Rightarrow> cloud \<Rightarrow> exn option \<times> cloud" where
  "ddb_put_item w item c =
     (case put_item_error w item of
        Some e \<Rightarrow> (Some e, c)
      | None \<Rightarrow>
          (case map_of item ''jobId'' of
             Some (PStr k) \<Rightarrow>
               (None, c\<lparr>job_table := table_put k (filter (\<lambda>(a, v). a \<noteq> ''jobId'') item) (job_table c)\<rparr>)
           | _ \<Rightarrow> (Some (ServiceError ''ValidationException''), c)))"

definition s3_put_object :: "aws \<Rightarrow> pyval \<Rightarrow> string \<Rightarrow> string \<Rightarrow> cloud \<Rightarrow> exn option \<times> cloud" where
  "s3_put_object w bucket key body c =
     (case put_object_error w bucket key body of
        Some e \<Rightarrow> (Some e, c)
      | None \<Rightarrow> (None, c\<lparr>objects_put := objects_put c @ [(bucket, key, body)]\<rparr>))"

definition both_failed :: "exn \<Rightarrow> pydict" where
  "both_failed direct_error =
     error_500 (''Both Bedrock and direct processing failed: '' @ str_exn direct_error)"

text \<open>
  Lines 111 to 177, the handler of \<open>except Exception as bedrock_error\<close>. The exception
  it caught is only logged; the model takes it as an argument and does not use it.
\<close>

definition direct_processing ::
  "aws \<Rightarrow> config \<Rightarrow> pyval \<Rightarrow> pyval \<Rightarrow> nat \<Rightarrow> exn \<Rightarrow> cloud \<Rightarrow> pydict \<times> cloud" where
  "direct_processing w cfg bucket key n bedrock_error c =
     (case get_object w bucket key of
        Inl direct_error \<Rightarrow> (both_failed direct_error, c)
      | Inr csv_content \<Rightarrow>
          (let processed_content = redact csv_content in
           case s3_put_object w (PStr (output_bucket cfg)) (output_key_of w key) processed_content c of
             (Some direct_error, c1) \<Rightarrow> (both_failed direct_error, c1)
           | (None, c1) \<Rightarrow>
               (case ddb_put_item w (direct_item w cfg bucket key n) c1 of
                  (Some direct_error, c2) \<Rightarrow> (both_failed direct_error, c2)
                | (None, c2) \<Rightarrow>
                    ([(''statusCode'', PInt 200),
                      (''jobId'', PStr (job_id_of w)),
                      (''method'', PStr ''direct_processing''),
                      (''outputFile'', PStr (output_uri_of w cfg key)),
                      (''message'', PStr (''Successfully processed '' @ fstr w key @ '' directly''))],
                     c2))))"

text \<open>
  Lines 43 to 177. Everything from the creation of the batch job to the return of the
  200 response stands in one \<open>try\<close> block, so an exception of any of its statements
  (the call, the read of \<open>jobArn\<close>, the write of the item) starts the direct processing.
\<close>

definition submit :: "aws \<Rightarrow> config \<Rightarrow> pyval \<Rightarrow> pyval \<Rightarrow> cloud \<Rightarrow> pydict \<times> cloud" where
  "submit w cfg bucket key c =
     (case create_model_invocation_job w (batch_request w cfg bucket key) of
        Inl bedrock_error \<Rightarrow> direct_processing w cfg bucket key 1 bedrock_error c
      | Inr response \<Rightarrow>
          (let c1 = c\<lparr>batch_jobs := batch_jobs c @ [batch_request w cfg bucket key]\<rparr> in
           case getitem (PDict response) ''jobArn'' of
             Inl bedrock_error \<Rightarrow> direct_processing w cfg bucket key 1 bedrock_error c1
           | Inr job_arn \<Rightarrow>
               (case ddb_put_item w (batch_item w cfg bucket key job_arn) c1 of
                  (Some bedrock_error, c2) \<Rightarrow> direct_processing w cfg bucket key 3 bedrock_error c2
                | (None, c2) \<Rightarrow>
                    ([(''statusCode'', PInt 200),
                      (''jobId'', PStr (job_id_of w)),
                      (''jobArn'', job_arn),
                      (''message'', PStr (''Successfully created batch job for '' @ fstr w key))],
                     c2))))"

definition processor_handler :: "aws \<Rightarrow> pydict \<Rightarrow> cloud \<Rightarrow> pydict \<times> cloud" where
  "processor_handler w event c =
     (case read_environment w of
        Inl e \<Rightarrow> (error_500 (str_exn e), c)
      | Inr cfg \<Rightarrow>
          (case parse_event event (input_bucket cfg) of
             Inl e \<Rightarrow> (error_500 (str_exn e), c)
           | Inr (bucket, key) \<Rightarrow> submit w cfg bucket key c))"

section \<open>Batch path: the job reconciler (monitor.py)\<close>

text \<open>
  Lines 29 to 33: the scan with the filter \<open>status = InProgress\<close>. The items it returns
  carry the key attribute. The model reads the whole table in one scan.
\<close>

definition table_item :: "string \<times> pydict \<Rightarrow> pydict" where
  "table_item e = (''jobId'', PStr (fst e)) # snd e"

definition scan_in_progress :: "(string \<times> pydict) list \<Rightarrow> pydict list" where
  "scan_in_progress t =
     map table_item (filter (\<lambda>e. map_of (snd e) ''status'' = Some (PStr ''InProgress'')) t)"

fun set_attr :: "string \<Rightarrow> pyval \<Rightarrow> pydict \<Rightarrow> pydict" where
  "set_attr a v [] = [(a, v)]"
| "set_attr a v ((a', v') # rest) =
     (if a = a' then (a, v) # rest else (a', v') # set_attr a v rest)"

fun set_attrs :: "pydict \<Rightarrow> pydict \<Rightarrow> pydict" where
  "set_attrs [] attrs = attrs"
| "set_attrs ((a, v) # assignments) attrs = set_attrs assignments (set_attr a v attrs)"

text \<open>
  \<open>table.update_item(Key={'jobId': job_id}, UpdateExpression='SET ...')\<close>: the
  assignments of the \<open>SET\<close> expression are applied to the item of that key (DynamoDB
  creates the item when the key is new).
\<close>

definition ddb_update_item :: "aws \<Rightarrow> pyval \<Rightarrow> pydict \<Rightarrow> cloud \<Rightarrow> exn option \<times> cloud" where
  "ddb_update_item w job_id assignments c =
     (case update_item_error w job_id assignments of
        Some e \<Rightarrow> (Some e, c)
      | None \<Rightarrow>
          (case job_id of
             PStr k \<Rightarrow>
               (None, c\<lparr>job_table :=
                  table_put k (set_attrs assignments (case map_of (job_table c) k of None \<Rightarrow> [] | Some attrs \<Rightarrow> attrs))
                    (job_table c)\<rparr>)
           | _ \<Rightarrow> (Some (ServiceError ''ValidationException''), c)))"

text \<open>
  Lines 56 to 67: the assignments of the update expression for a terminal status, with
  the clock reading \<open>completed_at\<close>.
\<close>

definition update_assignments :: "pydict \<Rightarrow> pyval \<Rightarrow> string \<Rightarrow> pydict" where
  "update_assignments job_response job_status completed_at =
     [(''status'', job_status), (''completedAt'', PStr completed_at)] @
     (if job_status = PStr ''Failed''
      then [(''failureReason'', dict_get job_response ''failureMessage'' (PStr ''Unknown failure''))]
      else [])"

text \<open>
  The state of the loop: \<open>jobs_checked\<close>, \<open>jobs_updated\<close>, the number of clock readings
  taken, and the state of the services.
\<close>

type_synonym loop_state = "nat \<times> nat \<times> nat \<times> cloud"

text \<open>Lines 49 to 81: the \<open>try\<close> block of one job; any exception in it ends this job only.\<close>

definition query_job :: "aws \<Rightarrow> pyval \<Rightarrow> pyval \<Rightarrow> loop_state \<Rightarrow> loop_state" where
  "query_job w job_id job_arn st =
     (case st of (checked, updated, n, c) \<Rightarrow>
       (let c1 = c\<lparr>status_queries := status_queries c @ [job_arn]\<rparr> in
        case get_model_invocation_job w job_arn of
          Inl job_error \<Rightarrow> (checked, updated, n, c1)
        | Inr job_response \<Rightarrow>
            (case getitem (PDict job_response) ''status'' of
               Inl job_error \<Rightarrow> (checked, updated, n, c1)
             | Inr job_status \<Rightarrow>
                 if job_status \<in> set [PStr ''Completed'', PStr ''Failed'', PStr ''Stopped''] then
                   (case ddb_update_item w job_id
                           (update_assignments job_response job_status (snd (datetime_now w n))) c1 of
                      (Some job_error, c2) \<Rightarrow> (checked, updated, n + 1, c2)
                    | (None, c2) \<Rightarrow> (checked, updated + 1, n + 1, c2))
                 else (checked, updated, n, c1))))"

text \<open>Lines 38 to 47: one turn of the loop over the scanned items.\<close>

definition check_item :: "aws \<Rightarrow> pydict \<Rightarrow> loop_state \<Rightarrow> exn + loop_state" where
  "check_item w item st =
     (case st of (checked, updated, n, c) \<Rightarrow>
       and_then (getitem (PDict item) ''jobId'') (\<lambda>job_id.
         let job_arn = dict_get item ''jobArn'' PNone in
         if \<not> truthy job_arn \<or> dict_get item ''method'' PNone = PStr ''direct_processing''
         then Inr st
         else Inr (query_job w job_id job_arn (checked + 1, updated, n, c))))"

fun check_items :: "aws \<Rightarrow> pydict list \<Rightarrow> loop_state \<Rightarrow> exn option \<times> loop_state" where
  "check_items w [] st = (None, st)"
| "check_items w (item # items) st =
     (case check_item w item st of
        Inl e \<Rightarrow> (Some e, st)
      | Inr st' \<Rightarrow> check_items w items st')"

definition monitor_handler :: "aws \<Rightarrow> pydict \<Rightarrow> cloud \<Rightarrow> pydict \<times> cloud" where
  "monitor_handler w event c =
     (case environ_get w ''DYNAMODB_TABLE'' of
        Inl e \<Rightarrow> (error_500 (str_exn e), c)
      | Inr monitored_table \<Rightarrow>
          (case scan_error w of
             Some e \<Rightarrow> (error_500 (str_exn e), c)
           | None \<Rightarrow>
               (case check_items w (scan_in_progress (job_table c)) (0, 0, 0, c) of
                  (Some e, (checked, updated, n, c')) \<Rightarrow> (error_500 (str_exn e), c')
                | (None, (checked, updated, n, c')) \<Rightarrow>
                    ([(''statusCode'', PInt 200),
                      (''jobsChecked'', PInt (int checked)),
                      (''jobsUpdated'', PInt (int updated)),
                      (''message'', PStr (''Checked '' @ str_nat checked @ '' jobs, updated '' @ str_nat updated))],
                     c'))))"

section \<open>Real-time path (genai-pii-mask.py)\<close>

text \<open>
  \<open>bedrock.converse\<close> is an external collaborator: \<open>backend text\<close> is what the call
  with the fixed model id and the message built from the fixed prompt and \<open>text\<close>
  returns (the response dictionary) or raises.
\<close>

type_synonym converse_api = "pyval \<Rightarrow> exn + pyval"

text \<open>\<open>response['output']['message']['content'][0]['text']\<close>\<close>

definition response_text :: "pyval \<Rightarrow> exn + pyval" where
  "response_text response =
     and_then (getitem response ''output'') (\<lambda>out.
     and_then (getitem out ''message'') (\<lambda>msg.
     and_then (getitem msg ''content'') (\<lambda>content.
     and_then (getfirst content) (\<lambda>block.
     getitem block ''text''))))"

definition obfuscate_pii :: "converse_api \<Rightarrow> pyval \<Rightarrow> exn + pyval" where
  "obfuscate_pii backend text' =
     try_except
       (and_then (backend text') response_text)
       (\<lambda>e. Inr text')"

text \<open>Lines 68 and 69.\<close>

definition source_location :: "pydict \<Rightarrow> exn + pyval \<times> pyval" where
  "source_location event =
     and_then (getitem (PDict event) ''Records'') (\<lambda>recs.
     and_then (getfirst recs) (\<lambda>rec0.
     and_then (getitem rec0 ''s3'') (\<lambda>s3.
     and_then (getitem s3 ''bucket'') (\<lambda>b.
     and_then (getitem b ''name'') (\<lambda>source_bucket.
     and_then (getitem (PDict event) ''Records'') (\<lambda>recs'.
     and_then (getfirst recs') (\<lambda>rec1.
     and_then (getitem rec1 ''s3'') (\<lambda>s3'.
     and_then (getitem s3' ''object'') (\<lambda>ob.
     and_then (getitem ob ''key'') (\<lambda>source_key.
     Inr (source_bucket, source_key)))))))))))"

text \<open>
  Lines 103 to 107: every row whose \<open>Comments\<close> cell is not missing is sent through
  \<open>obfuscate_pii\<close>. An exception here (a frame without that column) is not caught by the loop.
\<close>

fun process_rows :: "aws \<Rightarrow> dataframe \<Rightarrow> cloud \<Rightarrow> (exn + dataframe) \<times> cloud" where
  "process_rows w [] c = (Inr [], c)"
| "process_rows w (row # rows) c =
     (case getitem (PDict row) ''Comments'' of
        Inl e \<Rightarrow> (Inl e, c)
      | Inr cell \<Rightarrow>
          if cell \<noteq> PNone then
            (let c1 = c\<lparr>converse_calls := converse_calls c @ [cell]\<rparr> in
             case obfuscate_pii (bedrock_converse w) cell of
               Inl e \<Rightarrow> (Inl e, c1)
             | Inr masked \<Rightarrow>
                 (case process_rows w rows c1 of
                    (Inl e, c2) \<Rightarrow> (Inl e, c2)
                  | (Inr rows', c2) \<Rightarrow> (Inr (set_attr ''Comments'' masked row # rows'), c2)))
          else
            (case process_rows w rows c of
               (Inl e, c2) \<Rightarrow> (Inl e, c2)
             | (Inr rows', c2) \<Rightarrow> (Inr (row # rows'), c2)))"

definition failure_500 :: "string \<Rightarrow> exn \<Rightarrow> pydict" where
  "failure_500 stage e = [(''statusCode'', PInt 500), (''body'', PStr (stage @ str_exn e))]"

text \<open>Lines 77 to 132, for a key that passed the format check.\<close>

definition process_file :: "aws \<Rightarrow> pyval \<Rightarrow> string \<Rightarrow> cloud \<Rightarrow> pydict \<times> cloud" where
  "process_file w source_bucket source_key c =
     (case get_object w source_bucket (PStr ''config/pii_types.txt'') of
        Inl e \<Rightarrow> (failure_500 ''Error reading PII configuration: '' e, c)
      | Inr pii_config \<Rightarrow>
          (case and_then (get_object w source_bucket (PStr source_key)) (read_csv w) of
             Inl e \<Rightarrow> (failure_500 ''Error reading source CSV: '' e, c)
           | Inr df \<Rightarrow>
               (case process_rows w df c of
                  (Inl e, c1) \<Rightarrow> (failure_500 ''Unexpected error: '' e, c1)
                | (Inr df', c1) \<Rightarrow>
                    (let target_key = str_replace source_key ''Newfile/'' ''Newoutputfile/'' in
                     case s3_put_object w source_bucket target_key (to_csv w df') c1 of
                       (Some e, c2) \<Rightarrow> (failure_500 ''Error saving processed file: '' e, c2)
                     | (None, c2) \<Rightarrow>
                         ([(''statusCode'', PInt 200),
                           (''body'', PStr (json_dumps w
                              [(''message'', PStr ''Processing complete''),
                               (''input_file'', PStr source_key),
                               (''output_file'', PStr target_key),
                               (''rows_processed'', PInt (int (length df)))]))],
                          c2)))))"

definition lambda_handler :: "aws \<Rightarrow> pydict \<Rightarrow> cloud \<Rightarrow> pydict \<times> cloud" where
  "lambda_handler w event c =
     (case source_location event of
        Inl e \<Rightarrow> (failure_500 ''Unexpected error: '' e, c)
      | Inr (source_bucket, source_key) \<Rightarrow>
          (case source_key of
             PStr k \<Rightarrow>
               if \<not> endswith k ''.csv''
               then ([(''statusCode'', PInt 400), (''body'', PStr ''Invalid file format'')], c)
               else process_file w source_bucket k c
           | _ \<Rightarrow>
               (failure_500 ''Unexpected error: ''
                  (AttributeError (repr_key (type_name source_key) @ '' object has no attribute '' @
                     repr_key ''endswith'')), c)))"

section \<open>Example environments\<close>

text \<open>
  Concrete environments and inputs, used to run the handlers: a backend that accepts
  every batch job as \<open>arn:job:1\<close> and reports it as failed with a message, a store that
  accepts every write, and a source file with an e-mail address and a phone number.
\<close>

definition example_aws :: aws where
  "example_aws =
     \<lparr>environ = [(''INPUT_BUCKET'', ''in''), (''OUTPUT_BUCKET'', ''out''),
                 (''DYNAMODB_TABLE'', ''jobs''), (''BEDROCK_ROLE_ARN'', ''arn:role'')],
      datetime_now = (\<lambda>n. (1700000000 + int n, ''2023-11-14T22:13:20'')),
      str_other = (\<lambda>v. ''''),
      create_model_invocation_job = (\<lambda>r. Inr [(''jobArn'', PStr ''arn:job:1'')]),
      get_model_invocation_job =
        (\<lambda>a. Inr [(''status'', PStr ''Failed''), (''failureMessage'', PStr ''quota exceeded'')]),
      bedrock_converse = (\<lambda>t. Inl (ServiceError ''ThrottlingException'')),
      get_object = (\<lambda>b k. Inr ''Contact: a@b.com, phone 555-123-4567''),
      put_object_error = (\<lambda>b k body. None),
      put_item_error = (\<lambda>item. None),
      scan_error = None,
      update_item_error = (\<lambda>k a. None),
      read_csv = (\<lambda>s. Inr []),
      to_csv = (\<lambda>df. []),
      json_dumps = (\<lambda>d. [])\<rparr>"

definition example_config :: config where
  "example_config =
     \<lparr>input_bucket = ''in'', output_bucket = ''out'', table_name = ''jobs'',
      bedrock_role_arn = ''arn:role''\<rparr>"

definition empty_cloud :: cloud where
  "empty_cloud =
     \<lparr>batch_jobs = [], status_queries = [], converse_calls = [], objects_put = [], job_table = []\<rparr>"

definition s3_event :: "string \<Rightarrow> string \<Rightarrow> pydict" where
  "s3_event bucket key =
     [(''Records'', PList [PDict [(''s3'', PDict [(''bucket'', PDict [(''name'', PStr bucket)]),
                                                    (''object'', PDict [(''key'', PStr key)])])]])]"

text \<open>The record store refuses the item of the asynchronous path and accepts any other.\<close>

definition aws_first_write_fails :: aws where
  "aws_first_write_fails =
     example_aws\<lparr>put_item_error :=
       (\<lambda>item. if map_of item ''status'' = Some (PStr ''InProgress'')
               then Some (ServiceError ''ProvisionedThroughputExceededException'') else None)\<rparr>"

text \<open>The backend refuses every batch job.\<close>

definition aws_backend_down :: aws where
  "aws_backend_down =
     example_aws\<lparr>create_model_invocation_job := (\<lambda>r. Inl (ServiceError ''AccessDeniedException''))\<rparr>"

text \<open>The backend refuses every batch job and the source object cannot be read.\<close>

definition aws_both_fail :: aws where
  "aws_both_fail =
     aws_backend_down\<lparr>get_object := (\<lambda>b k. Inl (ServiceError ''NoSuchKey''))\<rparr>"

text \<open>\<open>needle in haystack\<close> for two strings.\<close>

fun occurs_in :: "string \<Rightarrow> string \<Rightarrow> bool" where
  "occurs_in needle [] = (needle = [])"
| "occurs_in needle (c # cs) = (take (length needle) (c # cs) = needle \<or> occurs_in needle cs)"

text \<open>
  A job table with two records of the asynchronous path that are in progress, a record
  of the direct path that reads \<open>InProgress\<close>, and a completed record; and a backend whose
  status query fails for the first job and reports the second as completed.
\<close>

definition example_table :: cloud where
  "example_table =
     empty_cloud\<lparr>job_table :=
       [(''job-a'', [(''jobArn'', PStr ''arn:a''), (''status'', PStr ''InProgress'')]),
        (''job-b'', [(''status'', PStr ''InProgress''), (''method'', PStr ''direct_processing'')]),
        (''job-c'', [(''jobArn'', PStr ''arn:c''), (''status'', PStr ''Completed''),
                     (''completedAt'', PStr ''2023-11-14T20:00:00'')]),
        (''job-d'', [(''jobArn'', PStr ''arn:d''), (''status'', PStr ''InProgress'')])]\<rparr>"

definition aws_query_fails_once :: aws where
  "aws_query_fails_once =
     example_aws\<lparr>get_model_invocation_job :=
       (\<lambda>a. if a = PStr ''arn:a'' then Inl (ServiceError ''ThrottlingException'')
            else Inr [(''status'', PStr ''Completed'')])\<rparr>"

section \<open>Notions used in the proofs\<close>

text \<open>
  A declarative reading of the matcher: \<open>matches items pw u nw\<close> says that the items can
  match exactly the text \<open>u\<close>, where \<open>pw\<close> tells whether the character before \<open>u\<close> is a
  word character and \<open>nw\<close> whether the character after it is. The matcher finds a match
  at a position exactly when some prefix of the rest matches in this sense.
\<close>

fun lastc :: "char option \<Rightarrow> string \<Rightarrow> char option" where
  "lastc prev [] = prev"
| "lastc prev (c # cs) = lastc (Some c) cs"

fun lastw :: "bool \<Rightarrow> string \<Rightarrow> bool" where
  "lastw pw [] = pw"
| "lastw pw (c # cs) = lastw (is_word c) cs"

fun matches :: "item list \<Rightarrow> bool \<Rightarrow> string \<Rightarrow> bool \<Rightarrow> bool" where
  "matches [] pw u nw = (u = [])"
| "matches (WordB # items) pw u nw =
     (pw \<noteq> (case u of [] \<Rightarrow> nw | c # _ \<Rightarrow> is_word c) \<and> matches items pw u nw)"
| "matches (Rep cls lo hi # items) pw [] nw = (lo = 0 \<and> matches items pw [] nw)"
| "matches (Rep cls lo hi # items) pw (c # cs) nw =
     ((more_allowed hi \<and> in_class c cls \<and>
       matches (Rep cls (lo - 1) (map_option (\<lambda>h. h - 1) hi) # items) (is_word c) cs nw)
      \<or> (lo = 0 \<and> matches items pw (c # cs) nw))"

text \<open>
  Syntactic facts about a pattern: an item accepts a character; an item must consume a
  character outside a given string; no match of the pattern starts at any position of a
  text; the pattern starts and ends with a word boundary and cannot match the empty
  text; a replacement tag starts and ends with a character that is not a word character;
  the pattern cannot match inside or across a tag.
\<close>

fun item_accepts :: "char \<Rightarrow> item \<Rightarrow> bool" where
  "item_accepts c WordB = False"
| "item_accepts c (Rep cls lo hi) = in_class c cls"

fun item_needs_outside :: "string \<Rightarrow> item \<Rightarrow> bool" where
  "item_needs_outside T WordB = False"
| "item_needs_outside T (Rep cls lo hi) = (0 < lo \<and> list_all (\<lambda>c. \<not> in_class c cls) T)"

fun no_match :: "item list \<Rightarrow> char option \<Rightarrow> string \<Rightarrow> bool" where
  "no_match pat prev [] = (rx_match pat prev [] = None)"
| "no_match pat prev (c # cs) = (rx_match pat prev (c # cs) = None \<and> no_match pat (Some c) cs)"

definition bounded :: "item list \<Rightarrow> bool" where
  "bounded pat = (pat \<noteq> [] \<and> hd pat = WordB \<and> last pat = WordB \<and>
                  list_ex (item_needs_outside []) pat)"

definition tag_ok :: "string \<Rightarrow> bool" where
  "tag_ok T = (T \<noteq> [] \<and> \<not> is_word (hd T) \<and> \<not> is_word (last T))"

definition skips_tag :: "item list \<Rightarrow> string \<Rightarrow> bool" where
  "skips_tag pat T = (list_ex (item_needs_outside T) pat \<and>
     list_all (\<lambda>it. \<not> item_accepts (hd T) it \<and> \<not> item_accepts (last T) it) pat)"

text \<open>
  The least length of a match, and the greatest length of a match made only of
  characters of \<open>D\<close> (\<open>None\<close> when unbounded).
\<close>

fun min_len :: "item list \<Rightarrow> nat" where
  "min_len [] = 0"
| "min_len (WordB # items) = min_len items"
| "min_len (Rep cls lo hi # items) = lo + min_len items"

fun max_len_within :: "string \<Rightarrow> item list \<Rightarrow> nat option" where
  "max_len_within D [] = Some 0"
| "max_len_within D (WordB # items) = max_len_within D items"
| "max_len_within D (Rep cls lo hi # items) =
     (if list_ex (\<lambda>c. in_class c cls) D
      then (case hi of None \<Rightarrow> None | Some h \<Rightarrow> map_option (\<lambda>m. h + m) (max_len_within D items))
      else max_len_within D items)"

text \<open>
  Notions used to state the reconciler's properties: an item the loop does not skip, and
  an item for whose job the backend reports a terminal status.
\<close>

definition eligible :: "pydict \<Rightarrow> bool" where
  "eligible item =
     (truthy (dict_get item ''jobArn'' PNone) \<and>
      dict_get item ''method'' PNone \<noteq> PStr ''direct_processing'')"

definition reported_terminal :: "aws \<Rightarrow> pydict \<Rightarrow> bool" where
  "reported_terminal w item =
     (case get_model_invocation_job w (dict_get item ''jobArn'' PNone) of
        Inl e \<Rightarrow> False
      | Inr job_response \<Rightarrow>
          (case map_of job_response ''status'' of
             None \<Rightarrow> False
           | Some s \<Rightarrow> s \<in> set [PStr ''Completed'', PStr ''Failed'', PStr ''Stopped'']))"

definition is_terminal :: "pydict \<Rightarrow> bool" where
  "is_terminal attrs =
     (map_of attrs ''status'' \<in> set [Some (PStr ''Completed''), Some (PStr ''Failed''), Some (PStr ''Stopped'')])"

text \<open>
  What the counter \<open>jobsUpdated\<close> counts. \<open>terminal_report w item\<close> is the backend's answer
  for the item's job when that answer carries a terminal status, together with the status.
  \<open>update_accepted w item n\<close> says that the record store takes the update that this answer
  leads to when \<open>n\<close> clock readings were taken before it. \<open>updates_expected w items n\<close>
  counts, along the items in order, those with a terminal report whose update is accepted;
  every terminal report takes one clock reading.
\<close>

definition terminal_report :: "aws \<Rightarrow> pydict \<Rightarrow> (pydict \<times> pyval) option" where
  "terminal_report w item =
     (case get_model_invocation_job w (dict_get item ''jobArn'' PNone) of
        Inl e \<Rightarrow> None
      | Inr job_response \<Rightarrow>
          (case map_of job_response ''status'' of
             None \<Rightarrow> None
           | Some s \<Rightarrow>
               if s \<in> set [PStr ''Completed'', PStr ''Failed'', PStr ''Stopped'']
               then Some (job_response, s) else None))"

definition update_accepted :: "aws \<Rightarrow> pydict \<Rightarrow> nat \<Rightarrow> bool" where
  "update_accepted w item n =
     (case terminal_report w item of
        None \<Rightarrow> False
      | Some (job_response, s) \<Rightarrow>
          update_item_error w (dict_get item ''jobId'' PNone)
            (update_assignments job_response s (snd (datetime_now w n))) = None)"

fun updates_expected :: "aws \<Rightarrow> pydict list \<Rightarrow> nat \<Rightarrow> nat" where
  "updates_expected w [] n = 0"
| "updates_expected w (item # items) n =
     (case terminal_report w item of
        None \<Rightarrow> updates_expected w items n
      | Some r \<Rightarrow> (if update_accepted w item n then 1 else 0) + updates_expected w items (n + 1))"

section \<open>Properties\<close>

section \<open>The matcher and its declarative reading\<close>

lemma wordo_lastc: "wordo (lastc prev u) = lastw (wordo prev) u"
  by (induction u arbitrary: prev) auto

lemma headw_append: "headw (u @ r) = (case u of [] \<Rightarrow> headw r | c # _ \<Rightarrow> is_word c)"
  by (cases u) auto

lemma rx_match_sound:
  "rx_match items prev s = Some (p', r) \<Longrightarrow>
     \<exists>u. s = u @ r \<and> p' = lastc prev u \<and> matches items (wordo prev) u (headw r)"
proof (induction items prev s arbitrary: p' r rule: rx_match.induct)
  case (1 prev s)
  then show ?case by simp
next
  case (2 items prev s)
  then obtain u where "s = u @ r" "p' = lastc prev u" "matches items (wordo prev) u (headw r)"
    by (auto split: if_splits)
  moreover have "wordo prev \<noteq> headw s" using 2 by (auto split: if_splits)
  ultimately show ?case by (auto simp: headw_append intro!: exI[of _ u])
next
  case (3 cls lo hi items prev)
  then show ?case by (auto split: if_splits)
next
  case (4 cls lo hi items prev c cs)
  show ?case
  proof (cases "more_allowed hi \<and> in_class c cls \<and>
      rx_match (Rep cls (lo - 1) (map_option (\<lambda>h. h - 1) hi) # items) (Some c) cs \<noteq> None")
    case True
    then have eq: "rx_match (Rep cls (lo - 1) (map_option (\<lambda>h. h - 1) hi) # items) (Some c) cs = Some (p', r)"
      using 4(4) by (auto split: option.splits)
    from 4(1)[OF _ eq] True obtain u where
      "cs = u @ r" "p' = lastc (Some c) u"
      "matches (Rep cls (lo - 1) (map_option (\<lambda>h. h - 1) hi) # items) (wordo (Some c)) u (headw r)"
      by auto
    then show ?thesis using True by (auto intro!: exI[of _ "c # u"])
  next
    case False
    then have lo: "lo = 0" and eq: "rx_match items prev (c # cs) = Some (p', r)"
      using 4(4) by (auto split: option.splits if_splits)
    have "\<exists>u. c # cs = u @ r \<and> p' = lastc prev u \<and> matches items (wordo prev) u (headw r)"
    proof (cases "more_allowed hi \<and> in_class c cls")
      case True
      then have "rx_match (Rep cls (lo - 1) (map_option (\<lambda>h. h - 1) hi) # items) (Some c) cs = None"
        using False by blast
      from 4(2)[OF True this lo eq] show ?thesis .
    next
      case F: False
      from 4(3)[OF F lo eq] show ?thesis .
    qed
    then obtain u where u: "c # cs = u @ r" "p' = lastc prev u" "matches items (wordo prev) u (headw r)"
      by auto
    show ?thesis
    proof (cases u)
      case Nil
      then show ?thesis using u lo by (auto intro!: exI[of _ "[]"])
    next
      case (Cons a list)
      then show ?thesis using u lo by (auto intro!: exI[of _ "u"])
    qed
  qed
qed

lemma rx_match_complete:
  "matches items (wordo prev) u (headw r) \<Longrightarrow> s = u @ r \<Longrightarrow> rx_match items prev s \<noteq> None"
proof (induction items prev s arbitrary: u r rule: rx_match.induct)
  case (1 prev s)
  then show ?case by simp
next
  case (2 items prev s)
  from 2(2) have b: "wordo prev \<noteq> (case u of [] \<Rightarrow> headw r | c # _ \<Rightarrow> is_word c)"
    and m: "matches items (wordo prev) u (headw r)" by auto
  from b have b': "wordo prev \<noteq> headw s" using 2(3) by (simp add: headw_append)
  from 2(1)[OF b' m 2(3)] b' show ?case by simp
next
  case (3 cls lo hi items prev)
  then show ?case by auto
next
  case (4 cls lo hi items prev c cs)
  show ?case
  proof (cases u)
    case Nil
    then have lo: "lo = 0" and m: "matches items (wordo prev) [] (headw r)" and r: "r = c # cs"
      using 4(4,5) by auto
    show ?thesis
    proof (cases "more_allowed hi \<and> in_class c cls")
      case True
      show ?thesis
      proof (cases "rx_match (Rep cls (lo - 1) (map_option (\<lambda>h. h - 1) hi) # items) (Some c) cs")
        case None
        from 4(2)[OF True None lo m] r have "rx_match items prev (c # cs) \<noteq> None" by simp
        then show ?thesis using True None lo by simp
      next
        case (Some a)
        then show ?thesis using True by simp
      qed
    next
      case False
      from 4(3)[OF False lo m] r have "rx_match items prev (c # cs) \<noteq> None" by simp
      then show ?thesis using False lo by auto
    qed
  next
    case (Cons a u')
    then have a: "a = c" and cs: "cs = u' @ r" using 4(5) by auto
    from 4(4) Cons a consider
      (consume) "more_allowed hi" "in_class c cls"
        "matches (Rep cls (lo - 1) (map_option (\<lambda>h. h - 1) hi) # items) (is_word c) u' (headw r)"
      | (skip) "lo = 0" "matches items (wordo prev) (c # u') (headw r)"
      by auto
    then show ?thesis
    proof cases
      case consume
      then have T: "more_allowed hi \<and> in_class c cls" by simp
      have "rx_match (Rep cls (lo - 1) (map_option (\<lambda>h. h - 1) hi) # items) (Some c) cs \<noteq> None"
        using 4(1)[OF T _ cs] consume(3) by simp
      then show ?thesis using T by (auto split: option.splits)
    next
      case skip
      show ?thesis
      proof (cases "more_allowed hi \<and> in_class c cls")
        case True
        show ?thesis
        proof (cases "rx_match (Rep cls (lo - 1) (map_option (\<lambda>h. h - 1) hi) # items) (Some c) cs")
          case None
          from 4(2)[OF True None skip(1) skip(2)] cs
          have "rx_match items prev (c # cs) \<noteq> None" by simp
          then show ?thesis using True None skip(1) by simp
        next
          case (Some a)
          then show ?thesis using True by simp
        qed
      next
        case False
        from 4(3)[OF False skip(1) skip(2)] cs
        have "rx_match items prev (c # cs) \<noteq> None" by simp
        then show ?thesis using False skip(1) by auto
      qed
    qed
  qed
qed

section \<open>What a match looks like\<close>

lemma matches_accepts:
  "matches items pw u nw \<Longrightarrow> c \<in> set u \<Longrightarrow> list_ex (item_accepts c) items"
  by (induction items pw u nw rule: matches.induct) auto

lemma matches_needs:
  "matches items pw u nw \<Longrightarrow> list_ex (item_needs_outside T) items \<Longrightarrow>
     \<exists>c \<in> set u. c \<notin> set T"
proof (induction items pw u nw rule: matches.induct)
  case (1 pw u nw)
  then show ?case by simp
next
  case (2 items pw u nw)
  then show ?case by auto
next
  case (3 cls lo hi items pw nw)
  then show ?case by auto
next
  case (4 cls lo hi items pw c cs nw)
  show ?case
  proof (cases "in_class c cls \<and> 0 < lo \<and> list_all (\<lambda>c. \<not> in_class c cls) T")
    case True
    then have "c \<notin> set T" by (auto simp: list_all_iff)
    then show ?thesis by auto
  next
    case False
    from 4(3) consider
      (consume) "more_allowed hi" "in_class c cls"
        "matches (Rep cls (lo - 1) (map_option (\<lambda>h. h - 1) hi) # items) (is_word c) cs nw"
      | (skip) "lo = 0" "matches items pw (c # cs) nw"
      by auto
    then show ?thesis
    proof cases
      case consume
      have "list_ex (item_needs_outside T) items" using 4(4) False consume(2) by auto
      then have "list_ex (item_needs_outside T) (Rep cls (lo - 1) (map_option (\<lambda>h. h - 1) hi) # items)"
        by simp
      from 4(1)[OF consume(3) this] show ?thesis by auto
    next
      case skip
      then have "list_ex (item_needs_outside T) items" using 4(4) by auto
      from 4(2)[OF skip(2) this] show ?thesis .
    qed
  qed
qed

lemma matches_nonempty:
  "matches items pw u nw \<Longrightarrow> list_ex (item_needs_outside []) items \<Longrightarrow> u \<noteq> []"
  using matches_needs[of items pw u nw "[]"] by auto

lemma matches_trailing:
  "matches items pw u nw \<Longrightarrow> items \<noteq> [] \<Longrightarrow> last items = WordB \<Longrightarrow> lastw pw u \<noteq> nw"
proof (induction items pw u nw rule: matches.induct)
  case (1 pw u nw)
  then show ?case by simp
next
  case (2 items pw u nw)
  then show ?case by (cases "items = []") (auto split: list.splits)
next
  case (3 cls lo hi items pw nw)
  then show ?case by (cases "items = []") auto
next
  case (4 cls lo hi items pw c cs nw)
  then show ?case by (cases "items = []") auto
qed

lemma matches_leading:
  "matches items pw u nw \<Longrightarrow> items \<noteq> [] \<Longrightarrow> hd items = WordB \<Longrightarrow> u \<noteq> [] \<Longrightarrow> pw \<noteq> headw u"
  by (cases items; cases u) auto

section \<open>A substitution leaves no match behind\<close>

lemma lastc_append: "lastc prev (u @ v) = lastc (lastc prev u) v"
  by (induction u arbitrary: prev) auto

lemma lastw_append: "lastw pw (u @ v) = lastw (lastw pw u) v"
  by (induction u arbitrary: pw) auto

lemma bounded_no_empty_match: "bounded pat \<Longrightarrow> rx_match pat prev [] = None"
proof (rule ccontr)
  assume b: "bounded pat" and "rx_match pat prev [] \<noteq> None"
  then obtain p r where "rx_match pat prev [] = Some (p, r)" by auto
  from rx_match_sound[OF this] obtain u where "[] = u @ r" "matches pat (wordo prev) u (headw r)"
    by auto
  with matches_nonempty[of pat "wordo prev" u "headw r"] b show False
    by (auto simp: bounded_def)
qed

lemma bounded_match_shorter:
  assumes "bounded pat" "rx_match pat prev s = Some (p, r)"
  shows "length r < length s"
proof -
  from rx_match_sound[OF assms(2)] obtain u where u: "s = u @ r" "matches pat (wordo prev) u (headw r)"
    by auto
  with matches_nonempty[of pat "wordo prev" u "headw r"] assms(1) have "u \<noteq> []"
    by (auto simp: bounded_def)
  with u show ?thesis by simp
qed

lemma no_match_suffix: "no_match pat prev (u @ r) \<Longrightarrow> no_match pat (lastc prev u) r"
  by (induction u arbitrary: prev) auto

lemma no_match_re_sub_id: "no_match pat prev s \<Longrightarrow> re_sub pat repl prev s = s"
  by (induction s arbitrary: prev) auto

lemma headw_re_sub: "tag_ok T \<Longrightarrow> \<not> headw s \<Longrightarrow> \<not> headw (re_sub pat T prev s)"
  by (cases s; cases T) (auto simp: tag_ok_def split: option.splits)

lemma matches_in_original:
  assumes I: "bounded I" "skips_tag I T" and T: "tag_ok T" and J: "bounded J"
    and m: "matches I (wordo prev) u (headw r')"
    and eq: "u @ r' = A @ re_sub J T (lastc prev A) s2"
  shows "\<exists>r. u @ r = A @ s2 \<and> matches I (wordo prev) u (headw r)"
  using eq
proof (induction s2 arbitrary: A)
  case Nil
  then show ?case using m bounded_no_empty_match[OF J] by auto
next
  case (Cons c cs)
  show ?case
  proof (cases "rx_match J (lastc prev A) (c # cs)")
    case None
    then have "u @ r' = (A @ [c]) @ re_sub J T (lastc prev (A @ [c])) cs"
      using Cons.prems by (simp add: lastc_append)
    from Cons.IH[OF this] show ?thesis by simp
  next
    case (Some a)
    then obtain p' rest where pr: "rx_match J (lastc prev A) (c # cs) = Some (p', rest)"
      by (cases a) auto
    from bounded_match_shorter[OF J pr] have sh: "length rest < length (c # cs)" .
    from rx_match_sound[OF pr] obtain mm where mm: "c # cs = mm @ rest"
      "matches J (wordo (lastc prev A)) mm (headw rest)" by auto
    have mne: "mm \<noteq> []" using mm sh by auto
    have eq2: "u @ r' = A @ T @ re_sub J T p' rest"
      using Cons.prems pr sh by simp
    have hdT: "hd T \<notin> set u"
      using matches_accepts[OF m, of "hd T"] I(2) by (auto simp: skips_tag_def list_all_iff list_ex_iff)
    obtain t T' where TT: "T = t # T'" using T by (cases T) (auto simp: tag_ok_def)
    from eq2 obtain w where "(u = A @ w \<and> w @ r' = T @ re_sub J T p' rest) \<or>
        (u @ w = A \<and> r' = w @ T @ re_sub J T p' rest)"
      by (auto simp: append_eq_append_conv2)
    then consider (over) w where "u = A @ w" "w \<noteq> []" "w @ r' = T @ re_sub J T p' rest"
      | (exact) "u = A" "r' = T @ re_sub J T p' rest"
      | (inside) w where "u @ w = A" "w \<noteq> []" "r' = w @ T @ re_sub J T p' rest"
      by (cases "w = []") auto
    then show ?thesis
    proof cases
      case over
      then have "hd w = t" using TT by (cases w) auto
      then have "hd T \<in> set u" using over TT by (cases w) auto
      with hdT show ?thesis by simp
    next
      case exact
      have nw: "headw r' = False" using exact TT T by (simp add: tag_ok_def)
      have "lastw (wordo prev) u \<noteq> headw r'"
        using matches_trailing[OF m] I(1) by (simp add: bounded_def)
      then have lw: "lastw (wordo prev) A" using nw exact by simp
      have "wordo (lastc prev A) \<noteq> headw mm"
        using matches_leading[OF mm(2) _ _ mne] J by (simp add: bounded_def)
      then have "\<not> headw mm" using lw by (simp add: wordo_lastc)
      then have "\<not> headw (c # cs)" using mm(1) mne by (cases mm) auto
      then have "matches I (wordo prev) u (headw (c # cs))" using m nw by simp
      then show ?thesis using exact by auto
    next
      case inside
      then obtain x w' where w: "w = x # w'" by (cases w) auto
      have "headw r' = headw (w @ c # cs)" using inside w by simp
      then have "matches I (wordo prev) u (headw (w @ c # cs))" using m by simp
      moreover have "u @ (w @ c # cs) = A @ c # cs" using inside by simp
      ultimately show ?thesis by blast
    qed
  qed
qed

lemma no_match_in_tag:
  assumes I: "bounded I" "skips_tag I T" and D: "set D \<subseteq> set T"
    and X: "no_match I (Some (last T)) X"
  shows "no_match I prev (D @ last T # X)"
  using D
proof (induction D arbitrary: prev)
  case Nil
  have "rx_match I prev (last T # X) = None"
  proof (rule ccontr)
    assume "rx_match I prev (last T # X) \<noteq> None"
    then obtain p r where pr: "rx_match I prev (last T # X) = Some (p, r)" by auto
    from rx_match_sound[OF pr] obtain u where u: "last T # X = u @ r"
      "matches I (wordo prev) u (headw r)" by auto
    from bounded_match_shorter[OF I(1) pr] u have "u \<noteq> []" by auto
    then have "last T \<in> set u" using u(1) by (cases u) auto
    with matches_accepts[OF u(2), of "last T"] I(2) show False
      by (auto simp: skips_tag_def list_all_iff list_ex_iff)
  qed
  then show ?case using X by simp
next
  case (Cons d D)
  have "rx_match I prev (d # D @ last T # X) = None"
  proof (rule ccontr)
    assume "rx_match I prev (d # D @ last T # X) \<noteq> None"
    then obtain p r where pr: "rx_match I prev (d # D @ last T # X) = Some (p, r)" by auto
    from rx_match_sound[OF pr] obtain u where u: "d # D @ last T # X = u @ r"
      "matches I (wordo prev) u (headw r)" by auto
    have nl: "last T \<notin> set u"
      using matches_accepts[OF u(2), of "last T"] I(2)
      by (auto simp: skips_tag_def list_all_iff list_ex_iff)
    from u(1) have e: "(d # D) @ (last T # X) = u @ r" by simp
    from e[unfolded append_eq_append_conv2]
    obtain w where "(d # D = u @ w \<and> w @ last T # X = r) \<or> ((d # D) @ w = u \<and> last T # X = w @ r)"
      by blast
    then have "set u \<subseteq> set (d # D)"
    proof
      assume "d # D = u @ w \<and> w @ last T # X = r"
      then have "set (d # D) = set u \<union> set w" by (metis set_append)
      then show ?thesis by blast
    next
      assume a: "(d # D) @ w = u \<and> last T # X = w @ r"
      show ?thesis
      proof (cases w)
        case Nil
        then show ?thesis using a by auto
      next
        case (Cons x xs)
        then have "x = last T" using a by simp
        then have "last T \<in> set u" using a Cons by auto
        with nl show ?thesis by simp
      qed
    qed
    then have "set u \<subseteq> set T" using Cons.prems by auto
    with matches_needs[OF u(2), of T] I(2) show False by (auto simp: skips_tag_def)
  qed
  moreover have "no_match I (Some d) (D @ last T # X)" using Cons by auto
  ultimately show ?case by simp
qed

lemma no_match_after_tag:
  assumes I: "bounded I" "skips_tag I T" and T: "tag_ok T"
    and X: "no_match I (Some (last T)) X"
  shows "no_match I prev (T @ X)"
proof -
  have ne: "T \<noteq> []" using T by (simp add: tag_ok_def)
  have "set (butlast T) \<subseteq> set T" by (meson in_set_butlastD subsetI)
  from no_match_in_tag[OF I this X, of prev]
  have "no_match I prev ((butlast T @ [last T]) @ X)" by simp
  then show ?thesis by (simp only: append_butlast_last_id[OF ne])
qed

lemma no_match_change_prev:
  assumes I: "bounded I" and X: "no_match I p1 X"
    and c: "wordo p1 = wordo p2 \<or> (\<not> headw X \<and> \<not> wordo p2)"
  shows "no_match I p2 X"
proof (cases X)
  case Nil
  then show ?thesis using bounded_no_empty_match[OF I] by simp
next
  case (Cons x xs)
  have "rx_match I p2 (x # xs) = None"
  proof (rule ccontr)
    assume "rx_match I p2 (x # xs) \<noteq> None"
    then obtain p r where pr: "rx_match I p2 (x # xs) = Some (p, r)" by auto
    from rx_match_sound[OF pr] obtain u where u: "x # xs = u @ r"
      "matches I (wordo p2) u (headw r)" by auto
    from bounded_match_shorter[OF I pr] u have une: "u \<noteq> []" by auto
    from c show False
    proof
      assume "wordo p1 = wordo p2"
      then have "matches I (wordo p1) u (headw r)" using u by simp
      from rx_match_complete[OF this u(1)] X Cons show False by simp
    next
      assume a: "\<not> headw X \<and> \<not> wordo p2"
      have "wordo p2 \<noteq> headw u"
        using matches_leading[OF u(2) _ _ une] I by (simp add: bounded_def)
      moreover have "headw u = headw X" using u(1) une Cons by (cases u) auto
      ultimately show False using a by simp
    qed
  qed
  then show ?thesis using X Cons by simp
qed

lemma re_sub_keeps_no_match:
  assumes I: "bounded I" "skips_tag I T" and T: "tag_ok T" and J: "bounded J"
  shows "I = J \<or> no_match I prev s \<Longrightarrow> no_match I prev (re_sub J T prev s)"
proof (induction "length s" arbitrary: s prev rule: less_induct)
  case less
  show ?case
  proof (cases s)
    case Nil
    then show ?thesis using bounded_no_empty_match[OF J] bounded_no_empty_match[OF I(1)] by simp
  next
    case (Cons c cs)
    show ?thesis
    proof (cases "rx_match J prev (c # cs)")
      case None
      have orig: "rx_match I prev (c # cs) = None" using less.prems None Cons by auto
      have hyp: "I = J \<or> no_match I (Some c) cs" using less.prems Cons by auto
      have rest: "no_match I (Some c) (re_sub J T (Some c) cs)"
        using less.hyps[of cs "Some c"] hyp Cons by simp
      have "rx_match I prev (c # re_sub J T (Some c) cs) = None"
      proof (rule ccontr)
        assume "rx_match I prev (c # re_sub J T (Some c) cs) \<noteq> None"
        then obtain p r' where "rx_match I prev (c # re_sub J T (Some c) cs) = Some (p, r')" by auto
        from rx_match_sound[OF this] obtain u where
          u: "c # re_sub J T (Some c) cs = u @ r'" "matches I (wordo prev) u (headw r')" by auto
        have "u @ r' = [c] @ re_sub J T (lastc prev [c]) cs" using u(1) by simp
        from matches_in_original[OF I T J u(2) this] obtain r where
          "u @ r = [c] @ cs" "matches I (wordo prev) u (headw r)" by blast
        from rx_match_complete[OF this(2), of "c # cs"] this(1) orig show False by simp
      qed
      then show ?thesis using None Cons rest by simp
    next
      case (Some a)
      then obtain p' rest where pr: "rx_match J prev (c # cs) = Some (p', rest)" by (cases a) auto
      from bounded_match_shorter[OF J pr] have sh: "length rest < length (c # cs)" .
      from rx_match_sound[OF pr] obtain mm where mm: "c # cs = mm @ rest" "p' = lastc prev mm"
        "matches J (wordo prev) mm (headw rest)" by auto
      have hyp: "I = J \<or> no_match I p' rest"
        using less.prems Cons mm(1,2) no_match_suffix[of I prev mm rest] by auto
      have X: "no_match I p' (re_sub J T p' rest)"
        using less.hyps[of rest p'] hyp sh Cons by simp
      have "lastw (wordo prev) mm \<noteq> headw rest"
        using matches_trailing[OF mm(3)] J by (simp add: bounded_def)
      then have "wordo p' \<noteq> headw rest" using mm(2) by (simp add: wordo_lastc)
      then have "wordo p' = wordo (Some (last T)) \<or>
          (\<not> headw (re_sub J T p' rest) \<and> \<not> wordo (Some (last T)))"
        using headw_re_sub[OF T, of rest J p'] T by (auto simp: tag_ok_def)
      from no_match_change_prev[OF I(1) X this]
      have "no_match I (Some (last T)) (re_sub J T p' rest)" .
      from no_match_after_tag[OF I T this]
      have "no_match I prev (T @ re_sub J T p' rest)" .
      then show ?thesis using pr sh Cons by simp
    qed
  qed
qed

lemma re_sub_twice:
  assumes "bounded I" "skips_tag I T" "tag_ok T"
  shows "re_sub I T None (re_sub I T None s) = re_sub I T None s"
  using re_sub_keeps_no_match[OF assms assms(1), of None s] no_match_re_sub_id by simp

section \<open>The four rules\<close>

lemma bounded_patterns:
  "bounded email_pattern" "bounded phone_pattern" "bounded credit_card_pattern" "bounded ssn_pattern"
  by (simp_all add: bounded_def email_pattern_def phone_pattern_def credit_card_pattern_def ssn_pattern_def)

lemma tags_ok:
  "tag_ok ''<PII_EMAIL>''" "tag_ok ''<PII_PHONE>''" "tag_ok ''<PII_CREDIT_CARD>''" "tag_ok ''<PII_SSN>''"
  by (simp_all add: tag_ok_def is_word_def)

lemma email_skips:
  "skips_tag email_pattern ''<PII_EMAIL>''" "skips_tag email_pattern ''<PII_PHONE>''"
  "skips_tag email_pattern ''<PII_CREDIT_CARD>''" "skips_tag email_pattern ''<PII_SSN>''"
  by code_simp+

lemma phone_skips:
  "skips_tag phone_pattern ''<PII_PHONE>''"
  "skips_tag phone_pattern ''<PII_CREDIT_CARD>''" "skips_tag phone_pattern ''<PII_SSN>''"
  by code_simp+

lemma credit_card_skips:
  "skips_tag credit_card_pattern ''<PII_CREDIT_CARD>''" "skips_tag credit_card_pattern ''<PII_SSN>''"
  by code_simp+

lemma ssn_skips:
  "skips_tag ssn_pattern ''<PII_SSN>''"
  by code_simp

lemma redact_no_match:
  "no_match email_pattern None (redact t)"
  "no_match phone_pattern None (redact t)"
  "no_match credit_card_pattern None (redact t)"
  "no_match ssn_pattern None (redact t)"
proof -
  define t1 where "t1 = re_sub email_pattern ''<PII_EMAIL>'' None t"
  define t2 where "t2 = re_sub phone_pattern ''<PII_PHONE>'' None t1"
  define t3 where "t3 = re_sub credit_card_pattern ''<PII_CREDIT_CARD>'' None t2"
  define t4 where "t4 = re_sub ssn_pattern ''<PII_SSN>'' None t3"
  have r: "redact t = t4" by (simp add: redact_def t1_def t2_def t3_def t4_def)
  have e1: "no_match email_pattern None t1"
    unfolding t1_def
    using re_sub_keeps_no_match[OF bounded_patterns(1) email_skips(1) tags_ok(1) bounded_patterns(1)] by simp
  have e2: "no_match email_pattern None t2"
    unfolding t2_def
    using re_sub_keeps_no_match[OF bounded_patterns(1) email_skips(2) tags_ok(2) bounded_patterns(2)] e1 by simp
  have e3: "no_match email_pattern None t3"
    unfolding t3_def
    using re_sub_keeps_no_match[OF bounded_patterns(1) email_skips(3) tags_ok(3) bounded_patterns(3)] e2 by simp
  have e4: "no_match email_pattern None t4"
    unfolding t4_def
    using re_sub_keeps_no_match[OF bounded_patterns(1) email_skips(4) tags_ok(4) bounded_patterns(4)] e3 by simp
  have p2: "no_match phone_pattern None t2"
    unfolding t2_def
    using re_sub_keeps_no_match[OF bounded_patterns(2) phone_skips(1) tags_ok(2) bounded_patterns(2)] by simp
  have p3: "no_match phone_pattern None t3"
    unfolding t3_def
    using re_sub_keeps_no_match[OF bounded_patterns(2) phone_skips(2) tags_ok(3) bounded_patterns(3)] p2 by simp
  have p4: "no_match phone_pattern None t4"
    unfolding t4_def
    using re_sub_keeps_no_match[OF bounded_patterns(2) phone_skips(3) tags_ok(4) bounded_patterns(4)] p3 by simp
  have c3: "no_match credit_card_pattern None t3"
    unfolding t3_def
    using re_sub_keeps_no_match[OF bounded_patterns(3) credit_card_skips(1) tags_ok(3) bounded_patterns(3)] by simp
  have c4: "no_match credit_card_pattern None t4"
    unfolding t4_def
    using re_sub_keeps_no_match[OF bounded_patterns(3) credit_card_skips(2) tags_ok(4) bounded_patterns(4)] c3 by simp
  have s4: "no_match ssn_pattern None t4"
    unfolding t4_def
    using re_sub_keeps_no_match[OF bounded_patterns(4) ssn_skips(1) tags_ok(4) bounded_patterns(4)] by simp
  show "no_match email_pattern None (redact t)" using e4 r by simp
  show "no_match phone_pattern None (redact t)" using p4 r by simp
  show "no_match credit_card_pattern None (redact t)" using c4 r by simp
  show "no_match ssn_pattern None (redact t)" using s4 r by simp
qed

text \<open>
  C4. The deterministic pattern strategy is idempotent: for every text, applying the four
  substitutions to their own output changes nothing. After the pass no pattern matches
  anywhere in the text: a tag cannot be matched or crossed, and where a tag replaced a
  match the word boundaries around it rule out a new match next to it.
\<close>

theorem redact_idempotent: "redact (redact t) = redact t"
proof -
  have "redact (redact t) =
     re_sub ssn_pattern ''<PII_SSN>'' None
      (re_sub credit_card_pattern ''<PII_CREDIT_CARD>'' None
        (re_sub phone_pattern ''<PII_PHONE>'' None
          (re_sub email_pattern ''<PII_EMAIL>'' None (redact t))))"
    by (simp add: redact_def[of "redact t"])
  also have "\<dots> = redact t"
    by (simp add: no_match_re_sub_id redact_no_match)
  finally show ?thesis .
qed

section \<open>Runs of digits\<close>

lemma is_digit_word: "is_digit c \<Longrightarrow> is_word c"
  by (simp add: is_digit_def is_word_def)

lemma is_digit_in_set: "is_digit c \<Longrightarrow> c \<in> set ''0123456789''"
proof -
  assume d: "is_digit c"
  define n where "n = (of_char c :: nat)"
  have "48 \<le> n" "n \<le> 57" using d by (simp_all add: is_digit_def n_def)
  then have "n = 48 \<or> n = 49 \<or> n = 50 \<or> n = 51 \<or> n = 52 \<or> n = 53 \<or> n = 54 \<or>
      n = 55 \<or> n = 56 \<or> n = 57" by presburger
  then consider "n = 48" | "n = 49" | "n = 50" | "n = 51" | "n = 52" | "n = 53" | "n = 54"
    | "n = 55" | "n = 56" | "n = 57" by blast
  then show ?thesis
  proof cases
    case 1 then have "of_char c = (of_char CHR ''0'' :: nat)" by (simp add: n_def)
    then have "c = CHR ''0''" by (simp only: of_char_eq_iff) then show ?thesis by simp
  next
    case 2 then have "of_char c = (of_char CHR ''1'' :: nat)" by (simp add: n_def)
    then have "c = CHR ''1''" by (simp only: of_char_eq_iff) then show ?thesis by simp
  next
    case 3 then have "of_char c = (of_char CHR ''2'' :: nat)" by (simp add: n_def)
    then have "c = CHR ''2''" by (simp only: of_char_eq_iff) then show ?thesis by simp
  next
    case 4 then have "of_char c = (of_char CHR ''3'' :: nat)" by (simp add: n_def)
    then have "c = CHR ''3''" by (simp only: of_char_eq_iff) then show ?thesis by simp
  next
    case 5 then have "of_char c = (of_char CHR ''4'' :: nat)" by (simp add: n_def)
    then have "c = CHR ''4''" by (simp only: of_char_eq_iff) then show ?thesis by simp
  next
    case 6 then have "of_char c = (of_char CHR ''5'' :: nat)" by (simp add: n_def)
    then have "c = CHR ''5''" by (simp only: of_char_eq_iff) then show ?thesis by simp
  next
    case 7 then have "of_char c = (of_char CHR ''6'' :: nat)" by (simp add: n_def)
    then have "c = CHR ''6''" by (simp only: of_char_eq_iff) then show ?thesis by simp
  next
    case 8 then have "of_char c = (of_char CHR ''7'' :: nat)" by (simp add: n_def)
    then have "c = CHR ''7''" by (simp only: of_char_eq_iff) then show ?thesis by simp
  next
    case 9 then have "of_char c = (of_char CHR ''8'' :: nat)" by (simp add: n_def)
    then have "c = CHR ''8''" by (simp only: of_char_eq_iff) then show ?thesis by simp
  next
    case 10 then have "of_char c = (of_char CHR ''9'' :: nat)" by (simp add: n_def)
    then have "c = CHR ''9''" by (simp only: of_char_eq_iff) then show ?thesis by simp
  qed
qed

lemma matches_min_len: "matches items pw u nw \<Longrightarrow> min_len items \<le> length u"
  by (induction items pw u nw rule: matches.induct) auto

lemma matches_max_len:
  "matches items pw u nw \<Longrightarrow> set u \<subseteq> set D \<Longrightarrow> max_len_within D items = Some m \<Longrightarrow> length u \<le> m"
proof (induction items pw u nw arbitrary: m rule: matches.induct)
  case (1 pw u nw)
  then show ?case by simp
next
  case (2 items pw u nw)
  then show ?case by auto
next
  case (3 cls lo hi items pw nw)
  then show ?case by simp
next
  case (4 cls lo hi items pw c cs nw)
  from 4(3) consider
    (consume) "more_allowed hi" "in_class c cls"
      "matches (Rep cls (lo - 1) (map_option (\<lambda>h. h - 1) hi) # items) (is_word c) cs nw"
    | (skip) "lo = 0" "matches items pw (c # cs) nw"
    by auto
  then show ?case
  proof cases
    case consume
    have ex: "list_ex (\<lambda>c. in_class c cls) D" using consume(2) 4(4) by (auto simp: list_ex_iff)
    with 4(5) obtain h m' where h: "hi = Some h" "max_len_within D items = Some m'" "m = h + m'"
      by (auto split: option.splits)
    have hpos: "0 < h" using consume(1) h by simp
    have "max_len_within D (Rep cls (lo - 1) (map_option (\<lambda>h. h - 1) hi) # items) = Some ((h - 1) + m')"
      using ex h by simp
    from 4(1)[OF consume(3) _ this] 4(4) have "length cs \<le> (h - 1) + m'" by simp
    then show ?thesis using hpos h by simp
  next
    case skip
    from 4(5) obtain m' where m': "max_len_within D items = Some m'" "m' \<le> m"
      by (auto split: if_splits option.splits)
    from 4(2)[OF skip(2) 4(4) m'(1)] m'(2) show ?thesis by simp
  qed
qed

lemma digits_no_match_needing_other:
  assumes b: "bounded pat" and n: "list_ex (item_needs_outside ''0123456789'') pat"
    and d: "list_all is_digit s"
  shows "no_match pat prev s"
  using d
proof (induction s arbitrary: prev)
  case Nil
  then show ?case using bounded_no_empty_match[OF b] by simp
next
  case (Cons c cs)
  have "rx_match pat prev (c # cs) = None"
  proof (rule ccontr)
    assume "rx_match pat prev (c # cs) \<noteq> None"
    then obtain p r where "rx_match pat prev (c # cs) = Some (p, r)" by auto
    from rx_match_sound[OF this] obtain u where u: "c # cs = u @ r"
      "matches pat (wordo prev) u (headw r)" by auto
    from matches_needs[OF u(2) n] obtain x where x: "x \<in> set u" "x \<notin> set ''0123456789''" by auto
    have "x \<in> set (c # cs)" using u(1) x(1) by (metis Un_iff set_append)
    then have "is_digit x" using Cons.prems by (auto simp: list_all_iff)
    with is_digit_in_set x(2) show False by blast
  qed
  then show ?case using Cons by simp
qed

lemma digits_no_match_bounds:
  assumes b: "bounded pat" and d: "list_all is_digit s"
    and len: "wordo prev \<or> length s < min_len pat \<or>
              (\<exists>m. max_len_within ''0123456789'' pat = Some m \<and> m < length s)"
  shows "no_match pat prev s"
  using d len
proof (induction s arbitrary: prev)
  case Nil
  then show ?case using bounded_no_empty_match[OF b] by simp
next
  case (Cons c cs)
  have "rx_match pat prev (c # cs) = None"
  proof (rule ccontr)
    assume "rx_match pat prev (c # cs) \<noteq> None"
    then obtain p r where pr: "rx_match pat prev (c # cs) = Some (p, r)" by auto
    from rx_match_sound[OF pr] obtain u where u: "c # cs = u @ r"
      "matches pat (wordo prev) u (headw r)" by auto
    from bounded_match_shorter[OF b pr] u have une: "u \<noteq> []" by auto
    have digs: "\<forall>x \<in> set (u @ r). is_digit x" using Cons.prems(1) u(1) by (simp add: list_all_iff)
    have hu: "headw u" using une digs by (cases u) (auto simp: is_digit_word)
    have "wordo prev \<noteq> headw u"
      using matches_leading[OF u(2) _ _ une] b by (simp add: bounded_def)
    then have nprev: "\<not> wordo prev" using hu by simp
    have lu: "lastw (wordo prev) u" using une digs
    proof (induction u arbitrary: prev rule: rev_induct)
      case Nil then show ?case by simp
    next
      case (snoc x xs) then show ?case by (simp add: lastw_append is_digit_word)
    qed
    have "lastw (wordo prev) u \<noteq> headw r"
      using matches_trailing[OF u(2)] b by (simp add: bounded_def)
    then have "\<not> headw r" using lu by simp
    then have r: "r = []" using digs by (cases r) (auto simp: is_digit_word)
    have su: "set u \<subseteq> set ''0123456789''" using digs is_digit_in_set by auto
    from Cons.prems(2) nprev consider "length (c # cs) < min_len pat"
      | m where "max_len_within ''0123456789'' pat = Some m" "m < length (c # cs)" by auto
    then show False
    proof cases
      case 1
      with matches_min_len[OF u(2)] u(1) r show False by simp
    next
      case 2
      with matches_max_len[OF u(2) su 2(1)] u(1) r show False by simp
    qed
  qed
  moreover have "no_match pat (Some c) cs"
    using Cons.IH[of "Some c"] Cons.prems(1) by (simp add: is_digit_word)
  ultimately show ?case by simp
qed

lemma fifteen_digits_no_match:
  assumes "length ds = 15" "list_all is_digit ds"
  shows "no_match email_pattern None ds" "no_match phone_pattern None ds"
    "no_match credit_card_pattern None ds" "no_match ssn_pattern None ds"
proof -
  have e: "list_ex (item_needs_outside ''0123456789'') email_pattern" by code_simp
  have s: "list_ex (item_needs_outside ''0123456789'') ssn_pattern" by code_simp
  have p: "max_len_within ''0123456789'' phone_pattern = Some 10" by code_simp
  have c: "min_len credit_card_pattern = 16" by (simp add: credit_card_pattern_def)
  show "no_match email_pattern None ds"
    using digits_no_match_needing_other[OF bounded_patterns(1) e assms(2)] .
  show "no_match ssn_pattern None ds"
    using digits_no_match_needing_other[OF bounded_patterns(4) s assms(2)] .
  show "no_match phone_pattern None ds"
    using digits_no_match_bounds[OF bounded_patterns(2) assms(2), of None] p assms(1) by simp
  show "no_match credit_card_pattern None ds"
    using digits_no_match_bounds[OF bounded_patterns(3) assms(2), of None] c assms(1) by simp
qed

text \<open>
  C9. Both \<open>4111-1111-1111-1111\<close> and \<open>4111111111111111\<close>, as the whole input, become the tag
  \<open><PII_CREDIT_CARD>\<close>; the e-mail and phone rules, which run first, leave both as they
  are. A text of exactly fifteen digits is not matched by the credit-card rule and the
  strategy leaves it as it is.
\<close>

theorem credit_card_rule_examples:
  "redact ''4111-1111-1111-1111'' = ''<PII_CREDIT_CARD>'' \<and>
   redact ''4111111111111111'' = ''<PII_CREDIT_CARD>'' \<and>
   re_sub phone_pattern ''<PII_PHONE>'' None
     (re_sub email_pattern ''<PII_EMAIL>'' None ''4111-1111-1111-1111'') = ''4111-1111-1111-1111'' \<and>
   re_sub phone_pattern ''<PII_PHONE>'' None
     (re_sub email_pattern ''<PII_EMAIL>'' None ''4111111111111111'') = ''4111111111111111'' \<and>
   (\<forall>ds. length ds = 15 \<and> list_all is_digit ds \<longrightarrow>
      rx_match credit_card_pattern None ds = None \<and>
      re_sub credit_card_pattern ''<PII_CREDIT_CARD>'' None ds = ds \<and>
      redact ds = ds)"
proof -
  have a: "redact ''4111-1111-1111-1111'' = ''<PII_CREDIT_CARD>''" by code_simp
  have b: "redact ''4111111111111111'' = ''<PII_CREDIT_CARD>''" by code_simp
  have c: "re_sub phone_pattern ''<PII_PHONE>'' None
     (re_sub email_pattern ''<PII_EMAIL>'' None ''4111-1111-1111-1111'') = ''4111-1111-1111-1111''"
    by code_simp
  have d: "re_sub phone_pattern ''<PII_PHONE>'' None
     (re_sub email_pattern ''<PII_EMAIL>'' None ''4111111111111111'') = ''4111111111111111''"
    by code_simp
  have e: "rx_match credit_card_pattern None ds = None \<and>
      re_sub credit_card_pattern ''<PII_CREDIT_CARD>'' None ds = ds \<and> redact ds = ds"
    if "length ds = 15" "list_all is_digit ds" for ds
  proof -
    note nm = fifteen_digits_no_match[OF that]
    have "rx_match credit_card_pattern None ds = None" using nm(3) by (cases ds) auto
    moreover have "redact ds = ds"
      by (simp add: redact_def no_match_re_sub_id nm)
    ultimately show ?thesis using nm(3) by (simp add: no_match_re_sub_id)
  qed
  from a b c d e show ?thesis by blast
qed

text \<open>The fifteen digits \<open>411111111111111\<close>.\<close>

theorem credit_card_rule_examples_witness:
  "length ''411111111111111'' = 15 \<and> list_all is_digit ''411111111111111'' \<and>
   rx_match credit_card_pattern None ''411111111111111'' = None \<and>
   redact ''411111111111111'' = ''411111111111111''"
proof -
  have h: "length ''411111111111111'' = 15 \<and> list_all is_digit ''411111111111111''"
    by (simp add: is_digit_def)
  with credit_card_rule_examples show ?thesis by blast
qed

section \<open>The model-backed strategy\<close>

lemma obfuscate_pii_cases:
  "obfuscate_pii backend t =
     (case backend t of
        Inl e \<Rightarrow> Inr t
      | Inr response \<Rightarrow> (case response_text response of Inl e \<Rightarrow> Inr t | Inr v \<Rightarrow> Inr v))"
  by (simp add: obfuscate_pii_def split: sum.splits)

text \<open>
  C5. The model-backed strategy is total and fail-open: for every input text and every
  behaviour of the backend, \<open>obfuscate_pii\<close> returns a value (it never raises), and
  whenever the converse call raises or the response cannot be read down to its text
  field, the value returned is the input text itself.
\<close>

theorem obfuscate_pii_total_fail_open:
  "(\<exists>v. obfuscate_pii backend t = Inr v) \<and>
   ((\<exists>e. backend t = Inl e) \<or> (\<exists>r e. backend t = Inr r \<and> response_text r = Inl e)
      \<longrightarrow> obfuscate_pii backend t = Inr t)"
  by (auto simp: obfuscate_pii_cases split: sum.splits)

text \<open>A backend that throttles every call.\<close>

theorem obfuscate_pii_total_fail_open_witness:
  "(\<exists>e. (\<lambda>t. Inl (ServiceError ''ThrottlingException'') :: exn + pyval) (PStr ''call 555-123-4567'') = Inl e) \<and>
   obfuscate_pii (\<lambda>t. Inl (ServiceError ''ThrottlingException'')) (PStr ''call 555-123-4567'')
     = Inr (PStr ''call 555-123-4567'')"
  using obfuscate_pii_total_fail_open
    [of "\<lambda>t. Inl (ServiceError ''ThrottlingException'')" "PStr ''call 555-123-4567''"]
  by simp

section \<open>The job table\<close>

lemma map_of_table_put_same: "map_of (table_put k v t) k = Some v"
  by (induction t) auto

lemma map_of_table_put_other: "k' \<noteq> k \<Longrightarrow> map_of (table_put k v t) k' = map_of t k'"
  by (induction t) auto

lemma keys_table_put_old: "k \<in> set (map fst t) \<Longrightarrow> map fst (table_put k v t) = map fst t"
  by (induction t) force+

lemma keys_table_put_new: "k \<notin> set (map fst t) \<Longrightarrow> map fst (table_put k v t) = map fst t @ [k]"
  by (induction t) auto

lemma distinct_table_put: "distinct (map fst t) \<Longrightarrow> distinct (map fst (table_put k v t))"
  by (cases "k \<in> set (map fst t)") (simp_all add: keys_table_put_old keys_table_put_new del: set_map)

lemma map_of_set_attr: "map_of (set_attr a v attrs) a' = (if a' = a then Some v else map_of attrs a')"
  by (induction attrs) auto

lemma map_of_update_assignments:
  "map_of (set_attrs (update_assignments job_response s t) attrs) a =
     (if a = ''failureReason'' \<and> s = PStr ''Failed''
        then Some (dict_get job_response ''failureMessage'' (PStr ''Unknown failure''))
      else if a = ''completedAt'' then Some (PStr t)
      else if a = ''status'' then Some s
      else map_of attrs a)"
  by (simp add: update_assignments_def map_of_set_attr)

section \<open>The job submitter\<close>

lemma str_int_example: "str_int 1700000000 = ''1700000000''"
  by (simp add: str_int_def str_nat.simps digit_char_def)

lemma redact_example:
  "redact ''Contact: a@b.com, phone 555-123-4567'' = ''Contact: <PII_EMAIL>, phone <PII_PHONE>''"
  by code_simp

lemmas processor_defs =
  processor_handler_def read_environment_def environ_get_def parse_event_def submit_def
  direct_processing_def ddb_put_item_def s3_put_object_def batch_item_def direct_item_def
  batch_request_def job_id_of_def output_key_of_def output_uri_of_def fstr_def both_failed_def
  error_500_def dict_get_def

lemma job_id_example: "job_id_of example_aws = ''pii-job-1700000000''"
  by (simp add: job_id_of_def example_aws_def str_int_example)

text \<open>
  C1 (the code departs from the claim). The write of the job record stands in the same
  \<open>try\<close> block as the creation of the batch job. Where the backend accepts the job and the
  record store refuses that first write, the handler has created the batch job and then
  runs the direct processing for the same \<open>jobId\<close>: it reads the source, writes the
  redacted output and persists a \<open>direct_processing\<close> record.
\<close>

theorem handler_creates_job_and_runs_fallback:
  "processor_handler aws_first_write_fails (s3_event ''in'' ''data.csv'') empty_cloud =
     ([(''statusCode'', PInt 200),
       (''jobId'', PStr ''pii-job-1700000000''),
       (''method'', PStr ''direct_processing''),
       (''outputFile'', PStr ''s3://out/processed-data.csv''),
       (''message'', PStr ''Successfully processed data.csv directly'')],
      \<lparr>batch_jobs =
         [\<lparr>jobName = ''pii-job-1700000000'', roleArn = ''arn:role'',
           modelId = ''anthropic.claude-3-haiku-20240307-v1:0'',
           s3InputUri = ''s3://in/data.csv'', s3OutputUri = ''s3://out/processed-data.csv'',
           timeoutDurationInHours = 24\<rparr>],
       status_queries = [], converse_calls = [],
       objects_put = [(PStr ''out'', ''processed-data.csv'', ''Contact: <PII_EMAIL>, phone <PII_PHONE>'')],
       job_table =
         [(''pii-job-1700000000'',
           [(''status'', PStr ''Completed''),
            (''sourceFile'', PStr ''data.csv''),
            (''inputBucket'', PStr ''in''),
            (''outputBucket'', PStr ''out''),
            (''outputKey'', PStr ''processed-data.csv''),
            (''createdAt'', PStr ''2023-11-14T22:13:20''),
            (''completedAt'', PStr ''2023-11-14T22:13:20''),
            (''method'', PStr ''direct_processing''),
            (''ttl'', PInt 1702592005)])]\<rparr>)"
  by (simp add: processor_defs aws_first_write_fails_def example_aws_def s3_event_def
      empty_cloud_def str_int_example redact_example)

text \<open>
  C2, as stated, fails. With a backend that returns \<open>jobArn = arn:job:1\<close>, the record the
  submitter persists has no \<open>method\<close> attribute, so its method is not \<open>async_model\<close>.
\<close>

theorem batch_record_has_no_method:
  "create_model_invocation_job example_aws
       (batch_request example_aws example_config (PStr ''in'') (PStr ''data.csv''))
     = Inr [(''jobArn'', PStr ''arn:job:1'')] \<and>
   job_table (snd (processor_handler example_aws (s3_event ''in'' ''data.csv'') empty_cloud)) =
     [(''pii-job-1700000000'',
       [(''jobArn'', PStr ''arn:job:1''),
        (''status'', PStr ''InProgress''),
        (''sourceFile'', PStr ''data.csv''),
        (''inputBucket'', PStr ''in''),
        (''outputBucket'', PStr ''out''),
        (''outputKey'', PStr ''processed-data.csv''),
        (''createdAt'', PStr ''2023-11-14T22:13:20''),
        (''ttl'', PInt 1702592002)])] \<and>
   map_of
     [(''jobArn'', PStr ''arn:job:1''),
      (''status'', PStr ''InProgress''),
      (''sourceFile'', PStr ''data.csv''),
      (''inputBucket'', PStr ''in''),
      (''outputBucket'', PStr ''out''),
      (''outputKey'', PStr ''processed-data.csv''),
      (''createdAt'', PStr ''2023-11-14T22:13:20''),
      (''ttl'', PInt 1702592002)] ''method'' \<noteq> Some (PStr ''async_model'')"
  by (simp add: processor_defs example_aws_def s3_event_def empty_cloud_def str_int_example)

text \<open>
  C2, amended. When the creation of the batch job succeeds and returns a \<open>jobArn\<close>, and
  the write of the job record succeeds, the response has status 200 and carries the arn,
  and the record persisted under the job's id has status \<open>InProgress\<close>, the returned
  \<open>jobArn\<close>, no \<open>completedAt\<close> attribute and no \<open>method\<close> attribute; nothing is written to the
  output location.
\<close>

theorem submit_batch_record:
  assumes "create_model_invocation_job w (batch_request w cfg bucket key) = Inr response"
    and "map_of response ''jobArn'' = Some job_arn"
    and "put_item_error w (batch_item w cfg bucket key job_arn) = None"
  shows "map_of (fst (submit w cfg bucket key c)) ''statusCode'' = Some (PInt 200) \<and>
         map_of (fst (submit w cfg bucket key c)) ''jobArn'' = Some job_arn \<and>
         (\<exists>attrs. map_of (job_table (snd (submit w cfg bucket key c))) (job_id_of w) = Some attrs \<and>
            map_of attrs ''status'' = Some (PStr ''InProgress'') \<and>
            map_of attrs ''jobArn'' = Some job_arn \<and>
            map_of attrs ''completedAt'' = None \<and>
            map_of attrs ''method'' = None) \<and>
         objects_put (snd (submit w cfg bucket key c)) = objects_put c"
proof -
  have item: "map_of (batch_item w cfg bucket key job_arn) ''jobId'' = Some (PStr (job_id_of w))"
    by (simp add: batch_item_def)
  have "submit w cfg bucket key c =
      ([(''statusCode'', PInt 200), (''jobId'', PStr (job_id_of w)), (''jobArn'', job_arn),
        (''message'', PStr (''Successfully created batch job for '' @ fstr w key))],
       c\<lparr>batch_jobs := batch_jobs c @ [batch_request w cfg bucket key],
          job_table := table_put (job_id_of w)
             (filter (\<lambda>(a, v). a \<noteq> ''jobId'') (batch_item w cfg bucket key job_arn)) (job_table c)\<rparr>)"
    using assms item by (simp add: submit_def ddb_put_item_def)
  then show ?thesis
    by (simp add: map_of_table_put_same batch_item_def)
qed

text \<open>The example environment, for the file \<open>data.csv\<close>.\<close>

theorem submit_batch_record_witness:
  "create_model_invocation_job example_aws
       (batch_request example_aws example_config (PStr ''in'') (PStr ''data.csv''))
     = Inr [(''jobArn'', PStr ''arn:job:1'')] \<and>
   map_of [(''jobArn'', PStr ''arn:job:1'')] ''jobArn'' = Some (PStr ''arn:job:1'') \<and>
   put_item_error example_aws
       (batch_item example_aws example_config (PStr ''in'') (PStr ''data.csv'') (PStr ''arn:job:1'')) = None \<and>
   (\<exists>attrs. map_of (job_table (snd (submit example_aws example_config (PStr ''in'') (PStr ''data.csv'') empty_cloud)))
        (job_id_of example_aws) = Some attrs \<and>
      map_of attrs ''status'' = Some (PStr ''InProgress'') \<and>
      map_of attrs ''jobArn'' = Some (PStr ''arn:job:1'') \<and>
      map_of attrs ''completedAt'' = None \<and>
      map_of attrs ''method'' = None)"
proof -
  have h1: "create_model_invocation_job example_aws
       (batch_request example_aws example_config (PStr ''in'') (PStr ''data.csv''))
     = Inr [(''jobArn'', PStr ''arn:job:1'')]"
    by (simp add: example_aws_def)
  have h2: "map_of [(''jobArn'', PStr ''arn:job:1'')] ''jobArn'' = Some (PStr ''arn:job:1'')"
    by simp
  have h3: "put_item_error example_aws
       (batch_item example_aws example_config (PStr ''in'') (PStr ''data.csv'') (PStr ''arn:job:1'')) = None"
    by (simp add: example_aws_def)
  from submit_batch_record[OF h1 h2 h3, of empty_cloud] h1 h2 h3 show ?thesis by blast
qed

text \<open>
  C3, as stated, fails. When the backend refuses the job with \<open>AccessDeniedException\<close> and
  the read of the source fails with \<open>NoSuchKey\<close>, the 500 response carries the text of the
  second error only.
\<close>

theorem dual_failure_hides_async_error:
  "create_model_invocation_job aws_both_fail
       (batch_request aws_both_fail example_config (PStr ''in'') (PStr ''data.csv''))
     = Inl (ServiceError ''AccessDeniedException'') \<and>
   get_object aws_both_fail (PStr ''in'') (PStr ''data.csv'') = Inl (ServiceError ''NoSuchKey'') \<and>
   fst (submit aws_both_fail example_config (PStr ''in'') (PStr ''data.csv'') empty_cloud) =
     [(''statusCode'', PInt 500),
      (''error'', PStr ''Both Bedrock and direct processing failed: NoSuchKey'')] \<and>
   \<not> occurs_in ''AccessDeniedException'' ''Both Bedrock and direct processing failed: NoSuchKey''"
  by (simp add: processor_defs aws_both_fail_def aws_backend_down_def example_aws_def)

text \<open>
  C3, amended. When the creation of the batch job raises and the direct processing fails
  (at the read of the source, at the write of the output or at the write of the record),
  the submitter returns a 500 response whose error text is
  \<open>Both Bedrock and direct processing failed: \<close> followed by the text of the fallback error
  alone, and it leaves the job table and the backend's batch jobs as they were.
\<close>

theorem dual_failure_response:
  assumes "create_model_invocation_job w (batch_request w cfg bucket key) = Inl bedrock_error"
    and "get_object w bucket key = Inl direct_error \<or>
         (\<exists>csv_content. get_object w bucket key = Inr csv_content \<and>
            (put_object_error w (PStr (output_bucket cfg)) (output_key_of w key) (redact csv_content)
               = Some direct_error \<or>
             put_object_error w (PStr (output_bucket cfg)) (output_key_of w key) (redact csv_content)
               = None \<and> put_item_error w (direct_item w cfg bucket key 1) = Some direct_error))"
  shows "fst (submit w cfg bucket key c) =
           [(''statusCode'', PInt 500),
            (''error'', PStr (''Both Bedrock and direct processing failed: '' @ str_exn direct_error))] \<and>
         job_table (snd (submit w cfg bucket key c)) = job_table c \<and>
         batch_jobs (snd (submit w cfg bucket key c)) = batch_jobs c"
  using assms
  by (auto simp: submit_def direct_processing_def s3_put_object_def ddb_put_item_def
      both_failed_def error_500_def)

text \<open>The environment in which the backend and the read of the source both fail.\<close>

theorem dual_failure_response_witness:
  "create_model_invocation_job aws_both_fail
       (batch_request aws_both_fail example_config (PStr ''in'') (PStr ''data.csv''))
     = Inl (ServiceError ''AccessDeniedException'') \<and>
   get_object aws_both_fail (PStr ''in'') (PStr ''data.csv'') = Inl (ServiceError ''NoSuchKey'') \<and>
   fst (submit aws_both_fail example_config (PStr ''in'') (PStr ''data.csv'') empty_cloud) =
     [(''statusCode'', PInt 500),
      (''error'', PStr (''Both Bedrock and direct processing failed: '' @ str_exn (ServiceError ''NoSuchKey'')))] \<and>
   job_table (snd (submit aws_both_fail example_config (PStr ''in'') (PStr ''data.csv'') empty_cloud))
     = job_table empty_cloud"
proof -
  have h1: "create_model_invocation_job aws_both_fail
       (batch_request aws_both_fail example_config (PStr ''in'') (PStr ''data.csv''))
     = Inl (ServiceError ''AccessDeniedException'')"
    by (simp add: aws_both_fail_def aws_backend_down_def example_aws_def)
  have h2: "get_object aws_both_fail (PStr ''in'') (PStr ''data.csv'') = Inl (ServiceError ''NoSuchKey'')"
    by (simp add: aws_both_fail_def)
  from dual_failure_response[OF h1 disjI1, OF h2, of empty_cloud] h1 h2 show ?thesis by blast
qed

text \<open>
  C10, as stated, fails for the batch submitter, which does not look at the extension:
  for the key \<open>notes.txt\<close> and a backend that refuses the job it answers 200 and writes the
  redacted text to the output location.
\<close>

theorem processor_accepts_other_extension:
  "\<not> endswith ''notes.txt'' ''.csv'' \<and>
   map_of (fst (processor_handler aws_backend_down (s3_event ''in'' ''notes.txt'') empty_cloud))
     ''statusCode'' = Some (PInt 200) \<and>
   objects_put (snd (processor_handler aws_backend_down (s3_event ''in'' ''notes.txt'') empty_cloud)) =
     [(PStr ''out'', ''processed-notes.txt'', ''Contact: <PII_EMAIL>, phone <PII_PHONE>'')]"
  by (simp add: processor_defs aws_backend_down_def example_aws_def s3_event_def empty_cloud_def
      str_int_example redact_example endswith_def)

text \<open>
  C10, amended. For every file-arrival event of the real-time handler whose object key
  does not end in \<open>.csv\<close>, the handler answers 400 with the body \<open>Invalid file format\<close> and
  changes nothing: no call to the model, no write.
\<close>

theorem lambda_handler_rejects_non_csv:
  assumes "source_location event = Inr (source_bucket, PStr source_key)"
    and "\<not> endswith source_key ''.csv''"
  shows "lambda_handler w event c =
           ([(''statusCode'', PInt 400), (''body'', PStr ''Invalid file format'')], c)"
  using assms by (simp add: lambda_handler_def)

text \<open>The key \<open>Newfile/notes.txt\<close>.\<close>

theorem lambda_handler_rejects_non_csv_witness:
  "source_location (s3_event ''in'' ''Newfile/notes.txt'') = Inr (PStr ''in'', PStr ''Newfile/notes.txt'') \<and>
   \<not> endswith ''Newfile/notes.txt'' ''.csv'' \<and>
   lambda_handler example_aws (s3_event ''in'' ''Newfile/notes.txt'') empty_cloud =
     ([(''statusCode'', PInt 400), (''body'', PStr ''Invalid file format'')], empty_cloud)"
proof -
  have h1: "source_location (s3_event ''in'' ''Newfile/notes.txt'') = Inr (PStr ''in'', PStr ''Newfile/notes.txt'')"
    by (simp add: source_location_def s3_event_def)
  have h2: "\<not> endswith ''Newfile/notes.txt'' ''.csv''"
    by (simp add: endswith_def)
  from lambda_handler_rejects_non_csv[OF h1 h2, of example_aws empty_cloud] h1 h2
  show ?thesis by blast
qed

section \<open>The job reconciler\<close>

text \<open>One job's try block.\<close>

lemma query_job_cases:
  "\<exists>up' n' c'. query_job w (PStr k) job_arn (ch, up, n, c) = (ch, up', n', c') \<and>
     up \<le> up' \<and> up' \<le> up + 1 \<and>
     status_queries c' = status_queries c @ [job_arn] \<and>
     (\<forall>k'. k' \<noteq> k \<longrightarrow> map_of (job_table c') k' = map_of (job_table c) k') \<and>
     (distinct (map fst (job_table c)) \<longrightarrow> distinct (map fst (job_table c')))"
  by (auto simp: query_job_def ddb_update_item_def Let_def map_of_table_put_other distinct_table_put
      split: sum.splits option.splits)

lemma query_job_not_terminal:
  assumes "\<not> reported_terminal w item" "job_arn = dict_get item ''jobArn'' PNone"
  shows "\<exists>c'. query_job w jid job_arn (ch, up, n, c) = (ch, up, n, c') \<and>
           job_table c' = job_table c"
  using assms
  by (auto simp: query_job_def reported_terminal_def Let_def split: sum.splits option.splits)

lemma query_job_terminal:
  assumes "reported_terminal w item" "job_arn = dict_get item ''jobArn'' PNone"
    and "\<forall>j a. update_item_error w j a = None"
  shows "\<exists>n' c' attrs' s. query_job w (PStr k) job_arn (ch, up, n, c) = (ch, up + 1, n', c') \<and>
           map_of (job_table c') k = Some attrs' \<and> map_of attrs' ''status'' = Some s \<and>
           s \<noteq> PStr ''InProgress''"
  using assms
  by (auto simp: query_job_def reported_terminal_def ddb_update_item_def Let_def
      map_of_table_put_same map_of_update_assignments split: sum.splits option.splits)

lemma check_item_table_item:
  "check_item w (table_item e) (ch, up, n, c) =
     Inr (if eligible (table_item e)
          then query_job w (PStr (fst e)) (dict_get (table_item e) ''jobArn'' PNone) (ch + 1, up, n, c)
          else (ch, up, n, c))"
  by (simp add: check_item_def table_item_def eligible_def Let_def)

lemma check_items_frame:
  "\<exists>up' n' c'.
     check_items w (map table_item es) (ch, up, n, c) =
       (None, (ch + length (filter (\<lambda>e. eligible (table_item e)) es), up', n', c')) \<and>
     up \<le> up' \<and> up' \<le> up + length (filter (\<lambda>e. eligible (table_item e)) es) \<and>
     status_queries c' = status_queries c @
       map (\<lambda>e. dict_get (table_item e) ''jobArn'' PNone) (filter (\<lambda>e. eligible (table_item e)) es) \<and>
     (\<forall>k. k \<notin> fst ` set (filter (\<lambda>e. eligible (table_item e)) es) \<longrightarrow>
          map_of (job_table c') k = map_of (job_table c) k) \<and>
     (distinct (map fst (job_table c)) \<longrightarrow> distinct (map fst (job_table c')))"
proof (induction es arbitrary: ch up n c)
  case Nil
  then show ?case by simp
next
  case (Cons e es)
  show ?case
  proof (cases "eligible (table_item e)")
    case False
    from Cons.IH[of ch up n c] False show ?thesis
      by (auto simp: check_item_table_item)
  next
    case True
    from query_job_cases[of w "fst e" "dict_get (table_item e) ''jobArn'' PNone" "ch + 1" up n c]
    obtain up1 n1 c1 where q:
      "query_job w (PStr (fst e)) (dict_get (table_item e) ''jobArn'' PNone) (ch + 1, up, n, c)
         = (ch + 1, up1, n1, c1)"
      "up \<le> up1" "up1 \<le> up + 1"
      "status_queries c1 = status_queries c @ [dict_get (table_item e) ''jobArn'' PNone]"
      "\<forall>k'. k' \<noteq> fst e \<longrightarrow> map_of (job_table c1) k' = map_of (job_table c) k'"
      "distinct (map fst (job_table c)) \<longrightarrow> distinct (map fst (job_table c1))"
      by blast
    from Cons.IH[of "ch + 1" up1 n1 c1] obtain up' n' c' where r:
      "check_items w (map table_item es) (ch + 1, up1, n1, c1) =
         (None, (ch + 1 + length (filter (\<lambda>e. eligible (table_item e)) es), up', n', c'))"
      "up1 \<le> up'" "up' \<le> up1 + length (filter (\<lambda>e. eligible (table_item e)) es)"
      "status_queries c' = status_queries c1 @
         map (\<lambda>e. dict_get (table_item e) ''jobArn'' PNone) (filter (\<lambda>e. eligible (table_item e)) es)"
      "\<forall>k. k \<notin> fst ` set (filter (\<lambda>e. eligible (table_item e)) es) \<longrightarrow>
          map_of (job_table c') k = map_of (job_table c1) k"
      "distinct (map fst (job_table c1)) \<longrightarrow> distinct (map fst (job_table c'))"
      by blast
    have "check_items w (map table_item (e # es)) (ch, up, n, c) =
        (None, (ch + length (filter (\<lambda>e. eligible (table_item e)) (e # es)), up', n', c'))"
      using True q(1) r(1) by (simp add: check_item_table_item)
    moreover have "up \<le> up'" using q(2) r(2) by simp
    moreover have "up' \<le> up + length (filter (\<lambda>e. eligible (table_item e)) (e # es))"
      using True q(3) r(3) by simp
    moreover have "status_queries c' = status_queries c @
       map (\<lambda>e. dict_get (table_item e) ''jobArn'' PNone) (filter (\<lambda>e. eligible (table_item e)) (e # es))"
      using True q(4) r(4) by simp
    moreover have "\<forall>k. k \<notin> fst ` set (filter (\<lambda>e. eligible (table_item e)) (e # es)) \<longrightarrow>
          map_of (job_table c') k = map_of (job_table c) k"
      using True q(5) r(5) by auto
    moreover have "distinct (map fst (job_table c)) \<longrightarrow> distinct (map fst (job_table c'))"
      using q(6) r(6) by simp
    ultimately show ?thesis by blast
  qed
qed

lemma check_items_settled:
  assumes "\<forall>e \<in> set es. \<not> (eligible (table_item e) \<and> reported_terminal w (table_item e))"
  shows "\<exists>ch' c'. check_items w (map table_item es) (ch, up, n, c) = (None, (ch', up, n, c')) \<and>
           job_table c' = job_table c"
  using assms
proof (induction es arbitrary: ch c)
  case Nil
  then show ?case by simp
next
  case (Cons e es)
  show ?case
  proof (cases "eligible (table_item e)")
    case False
    from Cons.IH[of ch c] Cons.prems False show ?thesis by (auto simp: check_item_table_item)
  next
    case True
    then have "\<not> reported_terminal w (table_item e)" using Cons.prems by simp
    from query_job_not_terminal[OF this refl, of "PStr (fst e)" "ch + 1" up n c]
    obtain c1 where q:
      "query_job w (PStr (fst e)) (dict_get (table_item e) ''jobArn'' PNone) (ch + 1, up, n, c)
         = (ch + 1, up, n, c1)" "job_table c1 = job_table c" by blast
    from Cons.IH[of "ch + 1" c1] Cons.prems obtain ch' c' where
      "check_items w (map table_item es) (ch + 1, up, n, c1) = (None, (ch', up, n, c'))"
      "job_table c' = job_table c1" by auto
    then show ?thesis using True q by (simp add: check_item_table_item)
  qed
qed

lemma check_items_effect:
  assumes ok: "\<forall>j a. update_item_error w j a = None"
    and d: "distinct (map fst es)"
    and run: "check_items w (map table_item es) (ch, up, n, c) = (None, (ch', up', n', c'))"
    and e: "e \<in> set es" "eligible (table_item e)" "reported_terminal w (table_item e)"
  shows "\<exists>attrs' s. map_of (job_table c') (fst e) = Some attrs' \<and>
           map_of attrs' ''status'' = Some s \<and> s \<noteq> PStr ''InProgress''"
  using d run e(1)
proof (induction es arbitrary: ch up n c)
  case Nil
  then show ?case by simp
next
  case (Cons x es)
  show ?case
  proof (cases "x = e")
    case True
    from query_job_terminal[OF e(3) refl ok, of "fst e" "ch + 1" up n c]
    obtain n1 c1 attrs' s where q:
      "query_job w (PStr (fst e)) (dict_get (table_item e) ''jobArn'' PNone) (ch + 1, up, n, c)
         = (ch + 1, up + 1, n1, c1)"
      "map_of (job_table c1) (fst e) = Some attrs'" "map_of attrs' ''status'' = Some s"
      "s \<noteq> PStr ''InProgress''" by blast
    have rest: "check_items w (map table_item es) (ch + 1, up + 1, n1, c1) = (None, (ch', up', n', c'))"
      using Cons.prems(2) True e(2) q(1) by (simp add: check_item_table_item)
    from check_items_frame[of w es "ch + 1" "up + 1" n1 c1] rest
    have fr: "\<forall>k. k \<notin> fst ` set (filter (\<lambda>e. eligible (table_item e)) es) \<longrightarrow>
          map_of (job_table c') k = map_of (job_table c1) k" by auto
    have "fst e \<notin> fst ` set es" using Cons.prems(1) True by auto
    then have "fst e \<notin> fst ` set (filter (\<lambda>e. eligible (table_item e)) es)" by auto
    with fr have "map_of (job_table c') (fst e) = map_of (job_table c1) (fst e)" by blast
    then show ?thesis using q by auto
  next
    case False
    then have ein: "e \<in> set es" using Cons.prems(3) by simp
    have d': "distinct (map fst es)" using Cons.prems(1) by simp
    show ?thesis
    proof (cases "eligible (table_item x)")
      case False
      then have "check_items w (map table_item es) (ch, up, n, c) = (None, (ch', up', n', c'))"
        using Cons.prems(2) by (simp add: check_item_table_item)
      from Cons.IH[OF d' this ein] show ?thesis .
    next
      case True
      obtain ch1 up1 n1 c1 where q:
        "query_job w (PStr (fst x)) (dict_get (table_item x) ''jobArn'' PNone) (ch + 1, up, n, c)
           = (ch1, up1, n1, c1)" by (metis prod_cases4)
      then have "check_items w (map table_item es) (ch1, up1, n1, c1) = (None, (ch', up', n', c'))"
        using Cons.prems(2) True by (simp add: check_item_table_item)
      from Cons.IH[OF d' this ein] show ?thesis .
    qed
  qed
qed

lemma monitor_handler_run:
  assumes "environ_get w ''DYNAMODB_TABLE'' = Inr tn" "scan_error w = None"
    and "check_items w (scan_in_progress (job_table c)) (0, 0, 0, c) = (None, (ch, up, n, c'))"
  shows "monitor_handler w event c =
     ([(''statusCode'', PInt 200),
       (''jobsChecked'', PInt (int ch)),
       (''jobsUpdated'', PInt (int up)),
       (''message'', PStr (''Checked '' @ str_nat ch @ '' jobs, updated '' @ str_nat up))], c')"
  using assms by (simp add: monitor_handler_def)

lemma monitor_handler_stops:
  assumes "(\<exists>e. environ_get w ''DYNAMODB_TABLE'' = Inl e) \<or> scan_error w \<noteq> None"
  shows "snd (monitor_handler w event c) = c \<and>
         map_of (fst (monitor_handler w event c)) ''jobsUpdated'' = None"
  using assms by (auto simp: monitor_handler_def error_500_def split: sum.splits option.splits)

lemma environ_or_scan:
  "(\<exists>tn. environ_get w ''DYNAMODB_TABLE'' = Inr tn \<and> scan_error w = None) \<or>
   ((\<exists>e. environ_get w ''DYNAMODB_TABLE'' = Inl e) \<or> scan_error w \<noteq> None)"
  by (cases "environ_get w ''DYNAMODB_TABLE''") auto

lemma scan_filter_eligible:
  "filter eligible (scan_in_progress t) =
     map table_item (filter (\<lambda>e. eligible (table_item e))
       (filter (\<lambda>e. map_of (snd e) ''status'' = Some (PStr ''InProgress'')) t))"
  by (simp add: scan_in_progress_def filter_map comp_def)

text \<open>What a pass does when the environment variable is set and the scan succeeds.\<close>

lemma monitor_handler_pass:
  assumes env: "environ_get w ''DYNAMODB_TABLE'' = Inr tn" "scan_error w = None"
  shows "\<exists>up c'. monitor_handler w event c =
       ([(''statusCode'', PInt 200),
         (''jobsChecked'', PInt (int (length (filter eligible (scan_in_progress (job_table c)))))),
         (''jobsUpdated'', PInt (int up)),
         (''message'', PStr (''Checked '' @ str_nat (length (filter eligible (scan_in_progress (job_table c)))) @
                            '' jobs, updated '' @ str_nat up))], c') \<and>
     up \<le> length (filter eligible (scan_in_progress (job_table c))) \<and>
     status_queries c' = status_queries c @
       map (\<lambda>item. dict_get item ''jobArn'' PNone) (filter eligible (scan_in_progress (job_table c))) \<and>
     (\<forall>k. k \<notin> fst ` set (filter (\<lambda>e. eligible (table_item e))
               (filter (\<lambda>e. map_of (snd e) ''status'' = Some (PStr ''InProgress'')) (job_table c))) \<longrightarrow>
          map_of (job_table c') k = map_of (job_table c) k) \<and>
     (distinct (map fst (job_table c)) \<longrightarrow> distinct (map fst (job_table c')))"
proof -
  define es where "es = filter (\<lambda>e. map_of (snd e) ''status'' = Some (PStr ''InProgress'')) (job_table c)"
  have sc: "scan_in_progress (job_table c) = map table_item es"
    by (simp add: scan_in_progress_def es_def)
  have len: "length (filter eligible (scan_in_progress (job_table c))) =
      length (filter (\<lambda>e. eligible (table_item e)) es)"
    by (simp add: scan_filter_eligible es_def)
  have qs: "map (\<lambda>item. dict_get item ''jobArn'' PNone) (filter eligible (scan_in_progress (job_table c))) =
      map (\<lambda>e. dict_get (table_item e) ''jobArn'' PNone) (filter (\<lambda>e. eligible (table_item e)) es)"
    by (simp add: scan_filter_eligible es_def comp_def)
  from check_items_frame[of w es 0 0 0 c] obtain up n' c' where r:
    "check_items w (map table_item es) (0, 0, 0, c) =
       (None, (0 + length (filter (\<lambda>e. eligible (table_item e)) es), up, n', c'))"
    "up \<le> 0 + length (filter (\<lambda>e. eligible (table_item e)) es)"
    "status_queries c' = status_queries c @
       map (\<lambda>e. dict_get (table_item e) ''jobArn'' PNone) (filter (\<lambda>e. eligible (table_item e)) es)"
    "\<forall>k. k \<notin> fst ` set (filter (\<lambda>e. eligible (table_item e)) es) \<longrightarrow>
          map_of (job_table c') k = map_of (job_table c) k"
    "distinct (map fst (job_table c)) \<longrightarrow> distinct (map fst (job_table c'))"
    by blast
  have run: "check_items w (scan_in_progress (job_table c)) (0, 0, 0, c) =
      (None, (length (filter eligible (scan_in_progress (job_table c))), up, n', c'))"
    using r(1) sc len by simp
  from monitor_handler_run[OF env run, of event] r(2-5) len qs show ?thesis
    unfolding es_def[symmetric] by auto
qed

lemma untouched_key:
  assumes d: "distinct (map fst t)" and m: "map_of t k = Some attrs"
    and n: "map_of attrs ''status'' \<noteq> Some (PStr ''InProgress'') \<or> \<not> eligible (table_item (k, attrs))"
  shows "k \<notin> fst ` set (filter (\<lambda>e. eligible (table_item e))
               (filter (\<lambda>e. map_of (snd e) ''status'' = Some (PStr ''InProgress'')) t))"
proof
  assume "k \<in> fst ` set (filter (\<lambda>e. eligible (table_item e))
               (filter (\<lambda>e. map_of (snd e) ''status'' = Some (PStr ''InProgress'')) t))"
  then obtain a where a: "(k, a) \<in> set t" "eligible (table_item (k, a))"
    "map_of a ''status'' = Some (PStr ''InProgress'')" by auto
  from d a(1) have "map_of t k = Some a" by (rule map_of_is_SomeI)
  with m have "a = attrs" by simp
  with a n show False by simp
qed

text \<open>
  C8. When the backend reports a terminal status and the update goes through, the update
  sets \<open>status\<close> to that status and \<open>completedAt\<close> to the clock reading, and the job counts as
  updated once. For \<open>Failed\<close> it also sets \<open>failureReason\<close>, to the backend's
  \<open>failureMessage\<close> when there is one and to \<open>Unknown failure\<close> otherwise; for \<open>Completed\<close> and
  \<open>Stopped\<close> the update expression has no \<open>failureReason\<close> and the attribute stays as it was.
\<close>

theorem terminal_update_fields:
  assumes "get_model_invocation_job w job_arn = Inr job_response"
    and "map_of job_response ''status'' = Some (PStr s)"
    and "s \<in> set [''Completed'', ''Failed'', ''Stopped'']"
    and "update_item_error w (PStr k)
           (update_assignments job_response (PStr s) (snd (datetime_now w n))) = None"
  shows "map fst (update_assignments job_response (PStr s) (snd (datetime_now w n))) =
           (if s = ''Failed'' then [''status'', ''completedAt'', ''failureReason'']
            else [''status'', ''completedAt'']) \<and>
         (\<exists>c' attrs'.
            query_job w (PStr k) job_arn (checked, updated, n, c) = (checked, updated + 1, n + 1, c') \<and>
            map_of (job_table c') k = Some attrs' \<and>
            map_of attrs' ''status'' = Some (PStr s) \<and>
            map_of attrs' ''completedAt'' = Some (PStr (snd (datetime_now w n))) \<and>
            map_of attrs' ''failureReason'' =
              (if s = ''Failed''
               then Some (case map_of job_response ''failureMessage'' of
                            Some m \<Rightarrow> m | None \<Rightarrow> PStr ''Unknown failure'')
               else (case map_of (job_table c) k of
                       None \<Rightarrow> None | Some attrs \<Rightarrow> map_of attrs ''failureReason'')))"
proof -
  have a: "map fst (update_assignments job_response (PStr s) (snd (datetime_now w n))) =
           (if s = ''Failed'' then [''status'', ''completedAt'', ''failureReason'']
            else [''status'', ''completedAt''])"
    by (simp add: update_assignments_def)
  have m: "PStr s \<in> set [PStr ''Completed'', PStr ''Failed'', PStr ''Stopped'']"
    using assms(3) by auto
  have q: "query_job w (PStr k) job_arn (checked, updated, n, c) =
      (checked, updated + 1, n + 1,
       c\<lparr>status_queries := status_queries c @ [job_arn],
         job_table := table_put k
           (set_attrs (update_assignments job_response (PStr s) (snd (datetime_now w n)))
              (case map_of (job_table c) k of None \<Rightarrow> [] | Some attrs \<Rightarrow> attrs))
           (job_table c)\<rparr>)"
    using assms(1,2,4) m by (simp add: query_job_def ddb_update_item_def Let_def)
  show ?thesis
    unfolding q using a
    by (auto simp: map_of_table_put_same map_of_update_assignments dict_get_def split: option.splits)
qed

text \<open>A backend that reports \<open>Failed\<close> with the message \<open>quota exceeded\<close>.\<close>

theorem terminal_update_fields_witness:
  "get_model_invocation_job example_aws (PStr ''arn:a'') =
     Inr [(''status'', PStr ''Failed''), (''failureMessage'', PStr ''quota exceeded'')] \<and>
   ''Failed'' \<in> set [''Completed'', ''Failed'', ''Stopped''] \<and>
   (\<exists>c' attrs'.
      query_job example_aws (PStr ''job-a'') (PStr ''arn:a'') (1, 0, 0, example_table) = (1, 1, 1, c') \<and>
      map_of (job_table c') ''job-a'' = Some attrs' \<and>
      map_of attrs' ''status'' = Some (PStr ''Failed'') \<and>
      map_of attrs' ''completedAt'' = Some (PStr ''2023-11-14T22:13:20'') \<and>
      map_of attrs' ''failureReason'' = Some (PStr ''quota exceeded''))"
proof -
  have h1: "get_model_invocation_job example_aws (PStr ''arn:a'') =
     Inr [(''status'', PStr ''Failed''), (''failureMessage'', PStr ''quota exceeded'')]"
    by (simp add: example_aws_def)
  have h2: "map_of [(''status'', PStr ''Failed''), (''failureMessage'', PStr ''quota exceeded'')] ''status''
      = Some (PStr ''Failed'')" by simp
  have h3: "''Failed'' \<in> set [''Completed'', ''Failed'', ''Stopped'']" by simp
  have h4: "update_item_error example_aws (PStr ''job-a'')
      (update_assignments [(''status'', PStr ''Failed''), (''failureMessage'', PStr ''quota exceeded'')]
         (PStr ''Failed'') (snd (datetime_now example_aws 0))) = None"
    by (simp add: example_aws_def)
  have t: "snd (datetime_now example_aws 0) = ''2023-11-14T22:13:20''"
    by (simp add: example_aws_def)
  from terminal_update_fields[OF h1 h2 h3 h4, of 1 0 example_table] h1 h3 t show ?thesis
    by auto
qed

lemma check_items_frame_terminal:
  "check_items w (map table_item es) (ch, up, n, c) = (None, (ch', up', n', c')) \<Longrightarrow>
   k \<notin> fst ` set (filter (\<lambda>e. eligible (table_item e) \<and> reported_terminal w (table_item e)) es) \<Longrightarrow>
   map_of (job_table c') k = map_of (job_table c) k"
proof (induction es arbitrary: ch up n c)
  case Nil
  then show ?case by simp
next
  case (Cons e es)
  have k': "k \<notin> fst ` set (filter (\<lambda>e. eligible (table_item e) \<and> reported_terminal w (table_item e)) es)"
    using Cons.prems(2) by auto
  show ?case
  proof (cases "eligible (table_item e)")
    case False
    then have "check_items w (map table_item es) (ch, up, n, c) = (None, (ch', up', n', c'))"
      using Cons.prems(1) by (simp add: check_item_table_item)
    from Cons.IH[OF this k'] show ?thesis .
  next
    case True
    show ?thesis
    proof (cases "reported_terminal w (table_item e)")
      case False
      from query_job_not_terminal[OF False refl, of "PStr (fst e)" "ch + 1" up n c]
      obtain c1 where q:
        "query_job w (PStr (fst e)) (dict_get (table_item e) ''jobArn'' PNone) (ch + 1, up, n, c)
           = (ch + 1, up, n, c1)" "job_table c1 = job_table c" by blast
      then have "check_items w (map table_item es) (ch + 1, up, n, c1) = (None, (ch', up', n', c'))"
        using Cons.prems(1) True by (simp add: check_item_table_item)
      from Cons.IH[OF this k'] q(2) show ?thesis by simp
    next
      case rt: True
      then have ne: "k \<noteq> fst e" using Cons.prems(2) True by auto
      from query_job_cases[of w "fst e" "dict_get (table_item e) ''jobArn'' PNone" "ch + 1" up n c]
      obtain up1 n1 c1 where q:
        "query_job w (PStr (fst e)) (dict_get (table_item e) ''jobArn'' PNone) (ch + 1, up, n, c)
           = (ch + 1, up1, n1, c1)"
        "\<forall>k'. k' \<noteq> fst e \<longrightarrow> map_of (job_table c1) k' = map_of (job_table c) k'"
        by blast
      then have "check_items w (map table_item es) (ch + 1, up1, n1, c1) = (None, (ch', up', n', c'))"
        using Cons.prems(1) True by (simp add: check_item_table_item)
      from Cons.IH[OF this k'] q(2) ne show ?thesis by simp
    qed
  qed
qed

lemma reported_terminal_report: "reported_terminal w item = (terminal_report w item \<noteq> None)"
  by (simp add: reported_terminal_def terminal_report_def split: sum.splits option.splits)

lemma query_job_count:
  "\<exists>c'. query_job w (PStr (fst e)) (dict_get (table_item e) ''jobArn'' PNone) (ch, up, n, c) =
     (ch,
      up + (if update_accepted w (table_item e) n then 1 else 0),
      n + (if terminal_report w (table_item e) = None then 0 else 1),
      c')"
  by (auto simp: query_job_def update_accepted_def terminal_report_def ddb_update_item_def Let_def
      table_item_def dict_get_def split: sum.splits option.splits)

lemma update_accepted_report: "update_accepted w item n \<Longrightarrow> terminal_report w item \<noteq> None"
  by (auto simp: update_accepted_def split: option.splits)

lemma check_items_count:
  "\<exists>n' c'.
     check_items w (map table_item es) (ch, up, n, c) =
       (None, (ch + length (filter (\<lambda>e. eligible (table_item e)) es),
               up + updates_expected w (map table_item (filter (\<lambda>e. eligible (table_item e)) es)) n,
               n', c'))"
proof (induction es arbitrary: ch up n c)
  case Nil
  then show ?case by simp
next
  case (Cons e es)
  show ?case
  proof (cases "eligible (table_item e)")
    case False
    from Cons.IH[of ch up n c] False show ?thesis by (auto simp: check_item_table_item)
  next
    case True
    from query_job_count[of w e "ch + 1" up n c] obtain c1 where q:
      "query_job w (PStr (fst e)) (dict_get (table_item e) ''jobArn'' PNone) (ch + 1, up, n, c) =
         (ch + 1, up + (if update_accepted w (table_item e) n then 1 else 0),
          n + (if terminal_report w (table_item e) = None then 0 else 1), c1)" by blast
    from Cons.IH[of "ch + 1" "up + (if update_accepted w (table_item e) n then 1 else 0)"
        "n + (if terminal_report w (table_item e) = None then 0 else 1)" c1]
    obtain n' c' where r:
      "check_items w (map table_item es)
         (ch + 1, up + (if update_accepted w (table_item e) n then 1 else 0),
          n + (if terminal_report w (table_item e) = None then 0 else 1), c1) =
       (None, (ch + 1 + length (filter (\<lambda>e. eligible (table_item e)) es),
               up + (if update_accepted w (table_item e) n then 1 else 0) +
                 updates_expected w (map table_item (filter (\<lambda>e. eligible (table_item e)) es))
                   (n + (if terminal_report w (table_item e) = None then 0 else 1)),
               n', c'))" by blast
    have "updates_expected w (map table_item (filter (\<lambda>e. eligible (table_item e)) (e # es))) n =
        (if update_accepted w (table_item e) n then 1 else 0) +
          updates_expected w (map table_item (filter (\<lambda>e. eligible (table_item e)) es))
            (n + (if terminal_report w (table_item e) = None then 0 else 1))"
      using True update_accepted_report[of w "table_item e" n] by (auto split: option.splits)
    then show ?thesis using True q r by (simp add: check_item_table_item)
  qed
qed

lemma updates_expected_all_accepted:
  "\<forall>j a. update_item_error w j a = None \<Longrightarrow>
     updates_expected w items n = length (filter (reported_terminal w) items)"
  by (induction items arbitrary: n)
     (auto simp: reported_terminal_report update_accepted_def split: option.splits)

lemma query_job_writes_status:
  assumes "terminal_report w item = Some (job_response, s)"
    and "job_arn = dict_get item ''jobArn'' PNone"
    and "\<forall>j a. update_item_error w j a = None"
  shows "\<exists>n' c' attrs'. query_job w (PStr k) job_arn (ch, up, n, c) = (ch, up + 1, n', c') \<and>
           map_of (job_table c') k = Some attrs' \<and> map_of attrs' ''status'' = Some s"
  using assms
  by (auto simp: query_job_def terminal_report_def ddb_update_item_def Let_def
      map_of_table_put_same map_of_update_assignments split: sum.splits option.splits if_splits)

lemma check_items_writes_status:
  assumes ok: "\<forall>j a. update_item_error w j a = None"
    and d: "distinct (map fst es)"
    and run: "check_items w (map table_item es) (ch, up, n, c) = (None, (ch', up', n', c'))"
    and e: "e \<in> set es" "eligible (table_item e)"
      "terminal_report w (table_item e) = Some (job_response, s)"
  shows "\<exists>attrs'. map_of (job_table c') (fst e) = Some attrs' \<and> map_of attrs' ''status'' = Some s"
  using d run e(1)
proof (induction es arbitrary: ch up n c)
  case Nil
  then show ?case by simp
next
  case (Cons x es)
  show ?case
  proof (cases "x = e")
    case True
    from query_job_writes_status[OF e(3) refl ok, of "fst e" "ch + 1" up n c]
    obtain n1 c1 attrs' where q:
      "query_job w (PStr (fst e)) (dict_get (table_item e) ''jobArn'' PNone) (ch + 1, up, n, c)
         = (ch + 1, up + 1, n1, c1)"
      "map_of (job_table c1) (fst e) = Some attrs'" "map_of attrs' ''status'' = Some s" by blast
    have rest: "check_items w (map table_item es) (ch + 1, up + 1, n1, c1) = (None, (ch', up', n', c'))"
      using Cons.prems(2) True e(2) q(1) by (simp add: check_item_table_item)
    from check_items_frame[of w es "ch + 1" "up + 1" n1 c1] rest
    have fr: "\<forall>k. k \<notin> fst ` set (filter (\<lambda>e. eligible (table_item e)) es) \<longrightarrow>
          map_of (job_table c') k = map_of (job_table c1) k" by auto
    have "fst e \<notin> fst ` set es" using Cons.prems(1) True by auto
    then have "fst e \<notin> fst ` set (filter (\<lambda>e. eligible (table_item e)) es)" by auto
    with fr have "map_of (job_table c') (fst e) = map_of (job_table c1) (fst e)" by blast
    then show ?thesis using q by auto
  next
    case False
    then have ein: "e \<in> set es" using Cons.prems(3) by simp
    have d': "distinct (map fst es)" using Cons.prems(1) by simp
    show ?thesis
    proof (cases "eligible (table_item x)")
      case False
      then have "check_items w (map table_item es) (ch, up, n, c) = (None, (ch', up', n', c'))"
        using Cons.prems(2) by (simp add: check_item_table_item)
      from Cons.IH[OF d' this ein] show ?thesis .
    next
      case True
      obtain ch1 up1 n1 c1 where q:
        "query_job w (PStr (fst x)) (dict_get (table_item x) ''jobArn'' PNone) (ch + 1, up, n, c)
           = (ch1, up1, n1, c1)" by (metis prod_cases4)
      then have "check_items w (map table_item es) (ch1, up1, n1, c1) = (None, (ch', up', n', c'))"
        using Cons.prems(2) True by (simp add: check_item_table_item)
      from Cons.IH[OF d' this ein] show ?thesis .
    qed
  qed
qed

lemma in_progress_key:
  assumes d: "distinct (map fst t)" and m: "map_of t k = Some attrs"
    and i: "k \<in> fst ` set (filter P (filter (\<lambda>e. map_of (snd e) ''status'' = Some (PStr ''InProgress'')) t))"
  shows "P (k, attrs)"
proof -
  from i obtain a where a: "(k, a) \<in> set t" "P (k, a)" by auto
  from d a(1) have "map_of t k = Some a" by (rule map_of_is_SomeI)
  with m a show ?thesis by simp
qed

text \<open>
  C7. Whatever the backend and the record store do for the single jobs (the status query
  or the update may raise for any of them), a pass whose scan succeeded answers 200 with
  the counts. It has queried every scanned record that has a \<open>jobArn\<close> and is not a
  \<open>direct_processing\<close> record, in order, and \<open>jobsChecked\<close> is their number. \<open>jobsUpdated\<close> is
  the number of those jobs for which the backend reported a terminal status and the
  record store took the update (all jobs with a terminal report, when no update is
  refused, and then each of their records carries the reported status). A record without
  a \<open>jobArn\<close> or with \<open>method = direct_processing\<close> is left as it was, also when its status
  reads \<open>InProgress\<close>, and so is every record whose job has no terminal report.
\<close>

theorem reconciler_isolates_job_failures:
  assumes "environ_get w ''DYNAMODB_TABLE'' = Inr tn" and "scan_error w = None"
    and "distinct (map fst (job_table c))"
  shows "\<exists>updated c'.
     monitor_handler w event c =
       ([(''statusCode'', PInt 200),
         (''jobsChecked'', PInt (int (length (filter eligible (scan_in_progress (job_table c)))))),
         (''jobsUpdated'', PInt (int updated)),
         (''message'', PStr (''Checked '' @ str_nat (length (filter eligible (scan_in_progress (job_table c)))) @
                            '' jobs, updated '' @ str_nat updated))], c') \<and>
     updated = updates_expected w (filter eligible (scan_in_progress (job_table c))) 0 \<and>
     updated \<le> length (filter eligible (scan_in_progress (job_table c))) \<and>
     status_queries c' = status_queries c @
       map (\<lambda>item. dict_get item ''jobArn'' PNone) (filter eligible (scan_in_progress (job_table c))) \<and>
     (\<forall>k attrs. map_of (job_table c) k = Some attrs \<and> \<not> eligible (table_item (k, attrs))
        \<longrightarrow> map_of (job_table c') k = Some attrs) \<and>
     (\<forall>k attrs. map_of (job_table c) k = Some attrs \<and> \<not> reported_terminal w (table_item (k, attrs))
        \<longrightarrow> map_of (job_table c') k = Some attrs) \<and>
     ((\<forall>j a. update_item_error w j a = None) \<longrightarrow>
        updated = length (filter (reported_terminal w) (filter eligible (scan_in_progress (job_table c)))) \<and>
        (\<forall>k attrs job_response s.
           map_of (job_table c) k = Some attrs \<and>
           map_of attrs ''status'' = Some (PStr ''InProgress'') \<and>
           eligible (table_item (k, attrs)) \<and>
           terminal_report w (table_item (k, attrs)) = Some (job_response, s)
           \<longrightarrow> (\<exists>attrs'. map_of (job_table c') k = Some attrs' \<and> map_of attrs' ''status'' = Some s)))"
proof -
  define es where "es = filter (\<lambda>e. map_of (snd e) ''status'' = Some (PStr ''InProgress'')) (job_table c)"
  define Q where "Q = filter eligible (scan_in_progress (job_table c))"
  have sc: "scan_in_progress (job_table c) = map table_item es"
    by (simp add: scan_in_progress_def es_def)
  have Qes: "Q = map table_item (filter (\<lambda>e. eligible (table_item e)) es)"
    by (simp add: Q_def scan_filter_eligible es_def)
  have len: "length Q = length (filter (\<lambda>e. eligible (table_item e)) es)"
    by (simp add: Qes)
  have des: "distinct (map fst es)" unfolding es_def using assms(3) by (rule distinct_map_filter)
  from check_items_frame[of w es 0 0 0 c] obtain up n' c' where r:
    "check_items w (map table_item es) (0, 0, 0, c) =
       (None, (0 + length (filter (\<lambda>e. eligible (table_item e)) es), up, n', c'))"
    "up \<le> 0 + length (filter (\<lambda>e. eligible (table_item e)) es)"
    "status_queries c' = status_queries c @
       map (\<lambda>e. dict_get (table_item e) ''jobArn'' PNone) (filter (\<lambda>e. eligible (table_item e)) es)"
    "\<forall>k. k \<notin> fst ` set (filter (\<lambda>e. eligible (table_item e)) es) \<longrightarrow>
          map_of (job_table c') k = map_of (job_table c) k"
    by blast
  from check_items_count[of w es 0 0 0 c] r(1)
  have cnt: "up = updates_expected w Q 0" by (auto simp: Qes)
  have run: "check_items w (scan_in_progress (job_table c)) (0, 0, 0, c) = (None, (length Q, up, n', c'))"
    using r(1) sc len by simp
  have resp: "monitor_handler w event c =
       ([(''statusCode'', PInt 200),
         (''jobsChecked'', PInt (int (length Q))),
         (''jobsUpdated'', PInt (int up)),
         (''message'', PStr (''Checked '' @ str_nat (length Q) @ '' jobs, updated '' @ str_nat up))], c')"
    using monitor_handler_run[OF assms(1,2) run, of event] .
  have le: "up \<le> length Q" using r(2) len by simp
  have qs: "status_queries c' = status_queries c @ map (\<lambda>item. dict_get item ''jobArn'' PNone) Q"
    using r(3) by (simp add: Qes comp_def)
  have skipped: "map_of (job_table c') k = Some attrs"
    if "map_of (job_table c) k = Some attrs" "\<not> eligible (table_item (k, attrs))" for k attrs
    using untouched_key[OF assms(3) that(1)] that r(4) unfolding es_def by simp
  have unreported: "map_of (job_table c') k = Some attrs"
    if m: "map_of (job_table c) k = Some attrs" and n: "\<not> reported_terminal w (table_item (k, attrs))"
    for k attrs
  proof -
    have "k \<notin> fst ` set (filter (\<lambda>e. eligible (table_item e) \<and> reported_terminal w (table_item e)) es)"
    proof
      assume "k \<in> fst ` set (filter (\<lambda>e. eligible (table_item e) \<and> reported_terminal w (table_item e)) es)"
      from in_progress_key[OF assms(3) m this[unfolded es_def]] n show False by simp
    qed
    from check_items_frame_terminal[OF r(1) this] m show ?thesis by simp
  qed
  have accepted: "up = length (filter (reported_terminal w) Q) \<and>
        (\<forall>k attrs job_response s.
           map_of (job_table c) k = Some attrs \<and>
           map_of attrs ''status'' = Some (PStr ''InProgress'') \<and>
           eligible (table_item (k, attrs)) \<and>
           terminal_report w (table_item (k, attrs)) = Some (job_response, s)
           \<longrightarrow> (\<exists>attrs'. map_of (job_table c') k = Some attrs' \<and> map_of attrs' ''status'' = Some s))"
    if ok: "\<forall>j a. update_item_error w j a = None"
  proof (intro conjI allI impI)
    show "up = length (filter (reported_terminal w) Q)"
      using cnt updates_expected_all_accepted[OF ok] by simp
  next
    fix k attrs job_response s
    assume a: "map_of (job_table c) k = Some attrs \<and>
           map_of attrs ''status'' = Some (PStr ''InProgress'') \<and>
           eligible (table_item (k, attrs)) \<and>
           terminal_report w (table_item (k, attrs)) = Some (job_response, s)"
    then have "(k, attrs) \<in> set (job_table c)" by (auto dest: map_of_SomeD)
    then have ein: "(k, attrs) \<in> set es" using a by (simp add: es_def)
    from check_items_writes_status[OF ok des r(1) ein] a
    show "\<exists>attrs'. map_of (job_table c') k = Some attrs' \<and> map_of attrs' ''status'' = Some s"
      by auto
  qed
  from resp cnt le qs skipped unreported accepted show ?thesis
    unfolding Q_def by blast
qed

text \<open>
  The example table, with a backend whose query fails for the first job and reports the
  other as completed: both jobs of the asynchronous path are queried, one is updated, and
  the records of the failed query and of the direct path are unchanged.
\<close>

theorem reconciler_isolates_job_failures_witness:
  "environ_get aws_query_fails_once ''DYNAMODB_TABLE'' = Inr ''jobs'' \<and>
   scan_error aws_query_fails_once = None \<and>
   distinct (map fst (job_table example_table)) \<and>
   get_model_invocation_job aws_query_fails_once (PStr ''arn:a'') = Inl (ServiceError ''ThrottlingException'') \<and>
   filter eligible (scan_in_progress (job_table example_table)) =
     [[(''jobId'', PStr ''job-a''), (''jobArn'', PStr ''arn:a''), (''status'', PStr ''InProgress'')],
      [(''jobId'', PStr ''job-d''), (''jobArn'', PStr ''arn:d''), (''status'', PStr ''InProgress'')]] \<and>
   (\<exists>c'.
      monitor_handler aws_query_fails_once [] example_table =
        ([(''statusCode'', PInt 200), (''jobsChecked'', PInt 2), (''jobsUpdated'', PInt 1),
          (''message'', PStr ''Checked 2 jobs, updated 1'')], c') \<and>
      status_queries c' = [PStr ''arn:a'', PStr ''arn:d''] \<and>
      map_of (job_table c') ''job-a'' =
        Some [(''jobArn'', PStr ''arn:a''), (''status'', PStr ''InProgress'')] \<and>
      map_of (job_table c') ''job-b'' =
        Some [(''status'', PStr ''InProgress''), (''method'', PStr ''direct_processing'')] \<and>
      (\<exists>attrs'. map_of (job_table c') ''job-d'' = Some attrs' \<and>
         map_of attrs' ''status'' = Some (PStr ''Completed'')))"
proof -
  have h1: "environ_get aws_query_fails_once ''DYNAMODB_TABLE'' = Inr ''jobs''"
    by (simp add: environ_get_def aws_query_fails_once_def example_aws_def)
  have h2: "scan_error aws_query_fails_once = None"
    by (simp add: aws_query_fails_once_def example_aws_def)
  have h3: "distinct (map fst (job_table example_table))"
    by (simp add: example_table_def empty_cloud_def)
  have h4: "get_model_invocation_job aws_query_fails_once (PStr ''arn:a'') = Inl (ServiceError ''ThrottlingException'')"
    by (simp add: aws_query_fails_once_def)
  have h5: "\<forall>j a. update_item_error aws_query_fails_once j a = None"
    by (simp add: aws_query_fails_once_def example_aws_def)
  have q: "filter eligible (scan_in_progress (job_table example_table)) =
     [[(''jobId'', PStr ''job-a''), (''jobArn'', PStr ''arn:a''), (''status'', PStr ''InProgress'')],
      [(''jobId'', PStr ''job-d''), (''jobArn'', PStr ''arn:d''), (''status'', PStr ''InProgress'')]]"
    by (simp add: scan_in_progress_def example_table_def empty_cloud_def table_item_def eligible_def
        dict_get_def)
  have len2: "length (filter eligible (scan_in_progress (job_table example_table))) = 2"
    by (simp add: q)
  have cnt: "updates_expected aws_query_fails_once
      [[(''jobId'', PStr ''job-a''), (''jobArn'', PStr ''arn:a''), (''status'', PStr ''InProgress'')],
       [(''jobId'', PStr ''job-d''), (''jobArn'', PStr ''arn:d''), (''status'', PStr ''InProgress'')]] 0 = 1"
    by (simp add: terminal_report_def update_accepted_def aws_query_fails_once_def example_aws_def
        dict_get_def)
  have a: "map_of (job_table example_table) ''job-a'' =
      Some [(''jobArn'', PStr ''arn:a''), (''status'', PStr ''InProgress'')] \<and>
     \<not> reported_terminal aws_query_fails_once
        (table_item (''job-a'', [(''jobArn'', PStr ''arn:a''), (''status'', PStr ''InProgress'')]))"
    by (simp add: example_table_def empty_cloud_def table_item_def reported_terminal_def dict_get_def
        aws_query_fails_once_def)
  have b: "map_of (job_table example_table) ''job-b'' =
      Some [(''status'', PStr ''InProgress''), (''method'', PStr ''direct_processing'')] \<and>
     \<not> eligible (table_item (''job-b'', [(''status'', PStr ''InProgress''), (''method'', PStr ''direct_processing'')]))"
    by (simp add: example_table_def empty_cloud_def table_item_def eligible_def dict_get_def)
  have d: "map_of (job_table example_table) ''job-d'' =
      Some [(''jobArn'', PStr ''arn:d''), (''status'', PStr ''InProgress'')] \<and>
     map_of [(''jobArn'', PStr ''arn:d''), (''status'', PStr ''InProgress'')] ''status''
       = Some (PStr ''InProgress'') \<and>
     eligible (table_item (''job-d'', [(''jobArn'', PStr ''arn:d''), (''status'', PStr ''InProgress'')])) \<and>
     terminal_report aws_query_fails_once
        (table_item (''job-d'', [(''jobArn'', PStr ''arn:d''), (''status'', PStr ''InProgress'')]))
       = Some ([(''status'', PStr ''Completed'')], PStr ''Completed'')"
    by (simp add: example_table_def empty_cloud_def table_item_def eligible_def terminal_report_def
        dict_get_def aws_query_fails_once_def)
  from reconciler_isolates_job_failures[OF h1 h2 h3, of "[]"] obtain updated c' where r:
    "monitor_handler aws_query_fails_once [] example_table =
       ([(''statusCode'', PInt 200),
         (''jobsChecked'', PInt (int (length (filter eligible (scan_in_progress (job_table example_table)))))),
         (''jobsUpdated'', PInt (int updated)),
         (''message'', PStr (''Checked '' @ str_nat (length (filter eligible (scan_in_progress (job_table example_table)))) @
                            '' jobs, updated '' @ str_nat updated))], c')"
    "updated = updates_expected aws_query_fails_once
        (filter eligible (scan_in_progress (job_table example_table))) 0"
    "status_queries c' = status_queries example_table @
       map (\<lambda>item. dict_get item ''jobArn'' PNone) (filter eligible (scan_in_progress (job_table example_table)))"
    "\<forall>k attrs. map_of (job_table example_table) k = Some attrs \<and> \<not> eligible (table_item (k, attrs))
        \<longrightarrow> map_of (job_table c') k = Some attrs"
    "\<forall>k attrs. map_of (job_table example_table) k = Some attrs \<and>
        \<not> reported_terminal aws_query_fails_once (table_item (k, attrs))
        \<longrightarrow> map_of (job_table c') k = Some attrs"
    "(\<forall>j a. update_item_error aws_query_fails_once j a = None) \<longrightarrow>
        (\<forall>k attrs job_response s.
           map_of (job_table example_table) k = Some attrs \<and>
           map_of attrs ''status'' = Some (PStr ''InProgress'') \<and>
           eligible (table_item (k, attrs)) \<and>
           terminal_report aws_query_fails_once (table_item (k, attrs)) = Some (job_response, s)
           \<longrightarrow> (\<exists>attrs'. map_of (job_table c') k = Some attrs' \<and> map_of attrs' ''status'' = Some s))"
    by blast
  have u1: "updated = 1" using r(2) unfolding q cnt .
  have r1: "monitor_handler aws_query_fails_once [] example_table =
        ([(''statusCode'', PInt 200), (''jobsChecked'', PInt 2), (''jobsUpdated'', PInt 1),
          (''message'', PStr ''Checked 2 jobs, updated 1'')], c')"
    using r(1) unfolding len2 u1 by (simp add: str_nat.simps digit_char_def)
  have r2: "status_queries c' = [PStr ''arn:a'', PStr ''arn:d'']"
    using r(3) unfolding q by (simp add: example_table_def empty_cloud_def dict_get_def)
  have r3: "map_of (job_table c') ''job-b'' =
        Some [(''status'', PStr ''InProgress''), (''method'', PStr ''direct_processing'')]"
    using r(4) b by blast
  have r4: "map_of (job_table c') ''job-a'' =
        Some [(''jobArn'', PStr ''arn:a''), (''status'', PStr ''InProgress'')]"
    using r(5) a by blast
  have r5: "\<exists>attrs'. map_of (job_table c') ''job-d'' = Some attrs' \<and>
         map_of attrs' ''status'' = Some (PStr ''Completed'')"
    using r(6) h5 d by blast
  from h1 h2 h3 h4 q r1 r2 r3 r4 r5 show ?thesis by blast
qed

lemma second_pass_settled:
  assumes d: "distinct (map fst (job_table c))"
    and ok: "\<forall>j a. update_item_error w j a = None"
    and run: "check_items w (scan_in_progress (job_table c)) (0, 0, 0, c) = (None, (ch, up, n, c1))"
    and d1: "distinct (map fst (job_table c1))"
    and e: "e \<in> set (filter (\<lambda>e. map_of (snd e) ''status'' = Some (PStr ''InProgress'')) (job_table c1))"
  shows "\<not> (eligible (table_item e) \<and> reported_terminal w (table_item e))"
proof
  assume el: "eligible (table_item e) \<and> reported_terminal w (table_item e)"
  define es where "es = filter (\<lambda>e. map_of (snd e) ''status'' = Some (PStr ''InProgress'')) (job_table c)"
  have run': "check_items w (map table_item es) (0, 0, 0, c) = (None, (ch, up, n, c1))"
    using run by (simp add: scan_in_progress_def es_def)
  have des: "distinct (map fst es)" unfolding es_def using d by (rule distinct_map_filter)
  obtain k a1 where ka: "e = (k, a1)" by (cases e)
  have in1: "(k, a1) \<in> set (job_table c1)" and st1: "map_of a1 ''status'' = Some (PStr ''InProgress'')"
    using e ka by auto
  from d1 in1 have m1: "map_of (job_table c1) k = Some a1" by (rule map_of_is_SomeI)
  show False
  proof (cases "k \<in> fst ` set (filter (\<lambda>e. eligible (table_item e) \<and> reported_terminal w (table_item e)) es)")
    case True
    then obtain e0 where e0: "e0 \<in> set es" "eligible (table_item e0)"
      "reported_terminal w (table_item e0)" "fst e0 = k" by auto
    from check_items_effect[OF ok des run' e0(1,2,3)] e0(4) m1 st1 show False by auto
  next
    case False
    from check_items_frame_terminal[OF run' False] m1
    have "map_of (job_table c) k = Some a1" by simp
    then have "(k, a1) \<in> set (job_table c)" by (rule map_of_SomeD)
    then have "(k, a1) \<in> set es" using st1 by (simp add: es_def)
    with el ka False show False by force
  qed
qed

text \<open>
  C6. In a table with one record per \<open>jobId\<close>, a pass leaves every record with a terminal
  status as it was, and \<open>jobsUpdated\<close> is at most the number of records that are not
  terminal. When no update is refused, a second pass in the same environment changes
  nothing in the table and reports \<open>jobsUpdated = 0\<close>.
\<close>

theorem terminal_records_untouched:
  assumes "distinct (map fst (job_table c))"
  shows "(\<forall>k attrs. map_of (job_table c) k = Some attrs \<and> is_terminal attrs \<longrightarrow>
            map_of (job_table (snd (monitor_handler w event c))) k = Some attrs) \<and>
         (\<forall>u. map_of (fst (monitor_handler w event c)) ''jobsUpdated'' = Some (PInt u) \<longrightarrow>
            u \<le> int (length (filter (\<lambda>e. \<not> is_terminal (snd e)) (job_table c)))) \<and>
         ((\<forall>j a. update_item_error w j a = None) \<and>
          (\<exists>tn. environ_get w ''DYNAMODB_TABLE'' = Inr tn) \<and> scan_error w = None \<longrightarrow>
            job_table (snd (monitor_handler w event' (snd (monitor_handler w event c)))) =
              job_table (snd (monitor_handler w event c)) \<and>
            map_of (fst (monitor_handler w event' (snd (monitor_handler w event c)))) ''statusCode''
              = Some (PInt 200) \<and>
            map_of (fst (monitor_handler w event' (snd (monitor_handler w event c)))) ''jobsUpdated''
              = Some (PInt 0))"
proof (intro conjI allI impI)
  fix k attrs
  assume a: "map_of (job_table c) k = Some attrs \<and> is_terminal attrs"
  then have nip: "map_of attrs ''status'' \<noteq> Some (PStr ''InProgress'')"
    by (auto simp: is_terminal_def)
  from environ_or_scan[of w]
  show "map_of (job_table (snd (monitor_handler w event c))) k = Some attrs"
  proof
    assume "\<exists>tn. environ_get w ''DYNAMODB_TABLE'' = Inr tn \<and> scan_error w = None"
    then obtain tn where env: "environ_get w ''DYNAMODB_TABLE'' = Inr tn" "scan_error w = None" by blast
    from monitor_handler_pass[OF env, of event c] obtain r c' where p:
      "monitor_handler w event c = (r, c')"
      "\<forall>k. k \<notin> fst ` set (filter (\<lambda>e. eligible (table_item e))
               (filter (\<lambda>e. map_of (snd e) ''status'' = Some (PStr ''InProgress'')) (job_table c))) \<longrightarrow>
          map_of (job_table c') k = map_of (job_table c) k" by blast
    from untouched_key[OF assms, of k attrs] a nip p show ?thesis by simp
  next
    assume "(\<exists>e. environ_get w ''DYNAMODB_TABLE'' = Inl e) \<or> scan_error w \<noteq> None"
    from monitor_handler_stops[OF this, of event c] a show ?thesis by simp
  qed
next
  fix u
  assume u: "map_of (fst (monitor_handler w event c)) ''jobsUpdated'' = Some (PInt u)"
  have le: "length (filter eligible (scan_in_progress (job_table c)))
      \<le> length (filter (\<lambda>e. \<not> is_terminal (snd e)) (job_table c))"
  proof -
    have "length (filter eligible (scan_in_progress (job_table c)))
        \<le> length (scan_in_progress (job_table c))"
      by (rule length_filter_le)
    also have "\<dots> = length (filter (\<lambda>e. map_of (snd e) ''status'' = Some (PStr ''InProgress'')) (job_table c))"
      by (simp add: scan_in_progress_def)
    also have "\<dots> \<le> length (filter (\<lambda>e. \<not> is_terminal (snd e)) (job_table c))"
    proof -
      have "filter (\<lambda>e. map_of (snd e) ''status'' = Some (PStr ''InProgress'')) (job_table c) =
          filter (\<lambda>e. map_of (snd e) ''status'' = Some (PStr ''InProgress''))
            (filter (\<lambda>e. \<not> is_terminal (snd e)) (job_table c))"
        by (auto simp: is_terminal_def intro!: filter_cong)
      then show ?thesis by (metis length_filter_le)
    qed
    finally show ?thesis .
  qed
  from environ_or_scan[of w]
  show "u \<le> int (length (filter (\<lambda>e. \<not> is_terminal (snd e)) (job_table c)))"
  proof
    assume "\<exists>tn. environ_get w ''DYNAMODB_TABLE'' = Inr tn \<and> scan_error w = None"
    then obtain tn where env: "environ_get w ''DYNAMODB_TABLE'' = Inr tn" "scan_error w = None" by blast
    from monitor_handler_pass[OF env, of event c] obtain up c' where p:
      "monitor_handler w event c =
       ([(''statusCode'', PInt 200),
         (''jobsChecked'', PInt (int (length (filter eligible (scan_in_progress (job_table c)))))),
         (''jobsUpdated'', PInt (int up)),
         (''message'', PStr (''Checked '' @ str_nat (length (filter eligible (scan_in_progress (job_table c)))) @
                            '' jobs, updated '' @ str_nat up))], c')"
      "up \<le> length (filter eligible (scan_in_progress (job_table c)))" by blast
    from u p(1) have "u = int up" by simp
    with p(2) le show ?thesis by simp
  next
    assume "(\<exists>e. environ_get w ''DYNAMODB_TABLE'' = Inl e) \<or> scan_error w \<noteq> None"
    from monitor_handler_stops[OF this, of event c] u show ?thesis by simp
  qed
next
  assume h: "(\<forall>j a. update_item_error w j a = None) \<and>
          (\<exists>tn. environ_get w ''DYNAMODB_TABLE'' = Inr tn) \<and> scan_error w = None"
  then obtain tn where env: "environ_get w ''DYNAMODB_TABLE'' = Inr tn" "scan_error w = None"
    and ok: "\<forall>j a. update_item_error w j a = None" by blast
  define es where "es = filter (\<lambda>e. map_of (snd e) ''status'' = Some (PStr ''InProgress'')) (job_table c)"
  from check_items_frame[of w es 0 0 0 c] obtain ch up n c1 where r:
    "check_items w (map table_item es) (0, 0, 0, c) = (None, (ch, up, n, c1))"
    "distinct (map fst (job_table c)) \<longrightarrow> distinct (map fst (job_table c1))" by blast
  have run: "check_items w (scan_in_progress (job_table c)) (0, 0, 0, c) = (None, (ch, up, n, c1))"
    using r(1) by (simp add: scan_in_progress_def es_def)
  have d1: "distinct (map fst (job_table c1))" using r(2) assms by simp
  have first: "snd (monitor_handler w event c) = c1"
    using monitor_handler_run[OF env run, of event] by simp
  define es2 where "es2 = filter (\<lambda>e. map_of (snd e) ''status'' = Some (PStr ''InProgress'')) (job_table c1)"
  have "\<forall>e \<in> set es2. \<not> (eligible (table_item e) \<and> reported_terminal w (table_item e))"
    using second_pass_settled[OF assms ok run d1] unfolding es2_def by blast
  from check_items_settled[OF this, of 0 0 0 c1] obtain ch2 c2 where s:
    "check_items w (map table_item es2) (0, 0, 0, c1) = (None, (ch2, 0, 0, c2))"
    "job_table c2 = job_table c1" by blast
  have run2: "check_items w (scan_in_progress (job_table c1)) (0, 0, 0, c1) = (None, (ch2, 0, 0, c2))"
    using s(1) by (simp add: scan_in_progress_def es2_def)
  from monitor_handler_run[OF env run2, of event'] s(2) first
  show "job_table (snd (monitor_handler w event' (snd (monitor_handler w event c)))) =
          job_table (snd (monitor_handler w event c))"
    and "map_of (fst (monitor_handler w event' (snd (monitor_handler w event c)))) ''statusCode''
          = Some (PInt 200)"
    and "map_of (fst (monitor_handler w event' (snd (monitor_handler w event c)))) ''jobsUpdated''
          = Some (PInt 0)"
    by simp_all
qed

text \<open>
  The example table: the first pass updates the two jobs in progress, the completed
  record stays, and the second pass updates nothing.
\<close>

theorem terminal_records_untouched_witness:
  "distinct (map fst (job_table example_table)) \<and>
   map_of (job_table example_table) ''job-c'' =
     Some [(''jobArn'', PStr ''arn:c''), (''status'', PStr ''Completed''),
           (''completedAt'', PStr ''2023-11-14T20:00:00'')] \<and>
   is_terminal [(''jobArn'', PStr ''arn:c''), (''status'', PStr ''Completed''),
                (''completedAt'', PStr ''2023-11-14T20:00:00'')] \<and>
   map_of (job_table (snd (monitor_handler example_aws [] example_table))) ''job-c'' =
     Some [(''jobArn'', PStr ''arn:c''), (''status'', PStr ''Completed''),
           (''completedAt'', PStr ''2023-11-14T20:00:00'')] \<and>
   map_of (fst (monitor_handler example_aws [] example_table)) ''jobsUpdated'' = Some (PInt 2) \<and>
   map_of (fst (monitor_handler example_aws []
       (snd (monitor_handler example_aws [] example_table)))) ''jobsUpdated'' = Some (PInt 0)"
proof -
  have h1: "distinct (map fst (job_table example_table))"
    by (simp add: example_table_def empty_cloud_def)
  have h2: "map_of (job_table example_table) ''job-c'' =
     Some [(''jobArn'', PStr ''arn:c''), (''status'', PStr ''Completed''),
           (''completedAt'', PStr ''2023-11-14T20:00:00'')]"
    by (simp add: example_table_def empty_cloud_def)
  have h3: "is_terminal [(''jobArn'', PStr ''arn:c''), (''status'', PStr ''Completed''),
                (''completedAt'', PStr ''2023-11-14T20:00:00'')]"
    by (simp add: is_terminal_def)
  have h4: "(\<forall>j a. update_item_error example_aws j a = None) \<and>
          (\<exists>tn. environ_get example_aws ''DYNAMODB_TABLE'' = Inr tn) \<and> scan_error example_aws = None"
    by (simp add: example_aws_def environ_get_def)
  have first: "map_of (fst (monitor_handler example_aws [] example_table)) ''jobsUpdated'' = Some (PInt 2)"
    by (simp add: monitor_handler_def environ_get_def example_aws_def example_table_def empty_cloud_def
        scan_in_progress_def table_item_def check_item_def query_job_def ddb_update_item_def
        update_assignments_def dict_get_def Let_def)
  from terminal_records_untouched[OF h1, of example_aws "[]" "[]"] h2 h3 h4 first
  show ?thesis using h1 by blast
qed

end
